theory Spec2Isabelle
  imports Main "HOL-Library.AList"
begin

section \<open>Scope\<close>

text \<open>
  The repository holds three variants of one bridge between a WhatsApp client (platform
  A) and a Discord channel (platform B). server.js holds two of them: version 2.0.0,
  which collects the replies to a forwarded message and flushes them when the window of
  the message ends, and version 2.2.0, which relays every reply at once. part\_000 is a
  third, which collects like 2.0.0, forwards the body with its trigger and relays text
  attachments as text. Definitions whose name ends in \<open>_A\<close> follow server.js 2.0.0, in
  \<open>_B\<close> server.js 2.2.0, in \<open>_P\<close> part\_000; a definition without such an ending
  follows text that is the same in the variants named with it.

  A handler is modelled as one step from the state before to the state after, with
  everything it awaits answered by the surroundings (\<open>env\<close>, and the methods of the
  inbound message). What a handler does to the outside is recorded in the state: the
  messages delivered to either platform, the scratch files, the callbacks handed to
  \<open>setTimeout\<close>, the lines written with \<open>console.error\<close>. Lines written with
  \<open>console.log\<close> are left out. The calls of \<open>fs\<close> on the scratch directory are taken
  to succeed, and \<open>path.join\<close> to concatenate with a separator.
\<close>

section \<open>JavaScript strings\<close>

text \<open>
  A JavaScript string is a sequence of UTF-16 code units; a code unit is modelled as a
  natural number. \<open>js\<close> embeds an ASCII literal. Code units above ASCII (the emoji of the
  message templates) are written as numbers.
\<close>

type_synonym jsstring = "nat list"
type_synonym bytes = "nat list"

definition js :: "string \<Rightarrow> jsstring" where
  "js s = map of_char s"

text \<open>ECMAScript \<open>WhiteSpace\<close> and \<open>LineTerminator\<close> code points, as \<open>String.prototype.trim\<close> uses them.\<close>

definition isWhiteSpace :: "nat \<Rightarrow> bool" where
  "isWhiteSpace c \<longleftrightarrow>
     c = 9 \<or> c = 10 \<or> c = 11 \<or> c = 12 \<or> c = 13 \<or> c = 32 \<or> c = 160 \<or> c = 5760 \<or>
     (8192 \<le> c \<and> c \<le> 8202) \<or> c = 8232 \<or> c = 8233 \<or> c = 8239 \<or> c = 8287 \<or>
     c = 12288 \<or> c = 65279"

definition trim :: "jsstring \<Rightarrow> jsstring" where
  "trim s = rev (dropWhile isWhiteSpace (rev (dropWhile isWhiteSpace s)))"

definition startsWith :: "jsstring \<Rightarrow> jsstring \<Rightarrow> bool" where
  "startsWith s p \<longleftrightarrow> take (length p) s = p"

definition endsWith :: "jsstring \<Rightarrow> jsstring \<Rightarrow> bool" where
  "endsWith s p \<longleftrightarrow> length p \<le> length s \<and> drop (length s - length p) s = p"

text \<open>\<open>s.substring(1)\<close>.\<close>

definition substring1 :: "jsstring \<Rightarrow> jsstring" where
  "substring1 s = drop 1 s"

text \<open>\<open>s.substr(2, 9)\<close>.\<close>

definition substr_2_9 :: "jsstring \<Rightarrow> jsstring" where
  "substr_2_9 s = take 9 (drop 2 s)"

text \<open>
  \<open>toLowerCase\<close> on the ASCII letters; other code units are left as they are. The source
  only compares the result's end with \<open>'.txt'\<close>.
\<close>

definition toLowerCase :: "jsstring \<Rightarrow> jsstring" where
  "toLowerCase s = map (\<lambda>c. if 65 \<le> c \<and> c \<le> 90 then c + 32 else c) s"

text \<open>A string in a condition: the empty string is falsy.\<close>

definition truthy :: "jsstring \<Rightarrow> bool" where
  "truthy s \<longleftrightarrow> s \<noteq> []"

text \<open>\<open>a || d\<close> where \<open>a\<close> may be \<open>undefined\<close> or empty and \<open>d\<close> is a string.\<close>

definition orElse :: "jsstring option \<Rightarrow> jsstring \<Rightarrow> jsstring" where
  "orElse a d = (case a of Some s \<Rightarrow> (if truthy s then s else d) | None \<Rightarrow> d)"

text \<open>The decimal digits of a number in a template literal.\<close>

fun digits :: "nat \<Rightarrow> jsstring" where
  "digits n = (if n < 10 then [48 + n] else digits (n div 10) @ [48 + n mod 10])"

declare digits.simps [simp del]

definition number_toString :: "int \<Rightarrow> jsstring" where
  "number_toString i = (if i < 0 then 45 # digits (nat (- i)) else digits (nat i))"

section \<open>Data model\<close>

text \<open>An awaited promise either resolves with a value or rejects (the \<open>await\<close> throws).\<close>

datatype 'a answer = Resolves 'a | Rejects

text \<open>The result of running a block: it completed, or it threw; the effects made so far stay.\<close>

datatype 'w completion = Done 'w | Thrown 'w

fun world_of :: "'w completion \<Rightarrow> 'w" where
  "world_of (Done w) = w"
| "world_of (Thrown w) = w"

fun then_do :: "'w completion \<Rightarrow> ('w \<Rightarrow> 'w completion) \<Rightarrow> 'w completion" where
  "then_do (Done w) f = f w"
| "then_do (Thrown w) f = Thrown w"

fun catch :: "'w completion \<Rightarrow> ('w \<Rightarrow> 'w completion) \<Rightarrow> 'w completion" where
  "catch (Done w) h = Done w"
| "catch (Thrown w) h = h w"

definition completes :: "'w completion \<Rightarrow> bool" where
  "completes r = (case r of Done w \<Rightarrow> True | Thrown w \<Rightarrow> False)"

record chat =
  chat_id :: jsstring
  chat_isGroup :: bool
  chat_name :: jsstring

record contact =
  contact_name :: "jsstring option"
  pushname :: "jsstring option"

record media =
  media_data :: bytes
  filename :: "jsstring option"

text \<open>
  A platform-A message event. \<open>getChat\<close>, \<open>getContact\<close> and \<open>downloadMedia\<close> hold what
  the methods of the same name answer when awaited; \<open>downloadMedia\<close> may resolve to
  \<open>undefined\<close> (\<open>None\<close>). \<open>media_data\<close> is the payload after base64 decoding.
  \<open>msg_from\<close> is \<open>message.from\<close>, the address of the conversation the message arrived
  in, and \<open>msg_author\<close> is \<open>message.author\<close>, the sender of a message in a group.
\<close>

record wa_message =
  body :: jsstring
  msg_from :: jsstring
  msg_author :: "jsstring option"
  hasMedia :: bool
  getChat :: "chat answer"
  getContact :: "contact answer"
  downloadMedia :: "media option answer"

record discord_attachment =
  att_url :: jsstring
  att_name :: jsstring
  att_contentType :: "jsstring option"

record discord_message =
  content :: jsstring
  author_username :: jsstring
  author_id :: jsstring
  author_bot :: bool
  channel_id :: jsstring
  attachments :: "discord_attachment list"

text \<open>An attachment descriptor kept in a collected response.\<close>

record stored_attachment =
  name :: jsstring
  path :: jsstring
  contentType :: "jsstring option"

record response =
  r_content :: jsstring
  r_author :: jsstring
  r_attachments :: "stored_attachment list"
  r_timestamp :: int

text \<open>
  The value stored in \<open>activeMessages\<close>. All variants store the first four fields; the
  collecting variants add \<open>responses\<close>, the live variant adds \<open>isGroup\<close> and \<open>groupName\<close>.
\<close>

record bridgeCore =
  whatsappChatId :: jsstring
  whatsappChat :: chat
  originalMessage :: wa_message
  timestamp :: int

record bridgeData = bridgeCore +
  responses :: "response list"

record liveBridgeData = bridgeCore +
  isGroup :: bool
  groupName :: "jsstring option"

text \<open>What \<open>chat.sendMessage\<close> is given: a text, or a \<open>MessageMedia\<close> read from a file, with a caption.\<close>

datatype wa_content = Text jsstring | MediaFile jsstring bytes "jsstring option"

text \<open>What \<open>discordChannel.send\<close> is given: the text and the paths of the attached files.\<close>

record discord_out =
  out_content :: jsstring
  out_files :: "jsstring list"

datatype task =
  UnlinkIfExists jsstring
| ProcessCollectedResponses jsstring
| CleanupBridgeSession jsstring

record config =
  discordChannelId :: jsstring
  messageTimeout :: int
  triggerChar :: jsstring
  uploadsDir :: jsstring

text \<open>
  What the surroundings answer while one handler runs: the clock, the random number
  behind the bridge id, the platform-B client, the download of an attachment by its URL,
  and whether the n-th call of \<open>chat.sendMessage\<close> (counted over the whole run of the
  process) rejects, given what it is asked to send. \<open>utf8\<close> decodes the bytes of a
  file as \<open>readFileSync(path, 'utf8')\<close> does. \<open>now\<close> is the clock where the handler
  reads it first, \<open>now_file\<close> where an inbound scratch file is named.
\<close>

record env =
  now :: int
  now_file :: int
  random_toString36 :: jsstring
  channels_fetch :: "unit option answer"
  discord_send_rejects :: bool
  discord_user_id :: jsstring
  axios_get :: "jsstring \<Rightarrow> bytes answer"
  sendMessage_rejects :: "nat \<Rightarrow> wa_content \<Rightarrow> bool"
  utf8 :: "bytes \<Rightarrow> jsstring"

text \<open>
  The state of the process: the \<open>activeMessages\<close> map in insertion order, the scratch
  files under \<open>uploadsDir\<close>, what has been delivered to either platform, the number of
  \<open>chat.sendMessage\<close> calls made, the pending \<open>setTimeout\<close> callbacks with their delay,
  and the lines written with \<open>console.error\<close>.
\<close>

record 'r world =
  activeMessages :: "(jsstring \<times> 'r) list"
  files :: "(jsstring \<times> bytes) list"
  discord_sent :: "discord_out list"
  whatsapp_sent :: "(chat \<times> wa_content) list"
  sendMessage_calls :: nat
  timers :: "(int \<times> task) list"
  console_error :: "jsstring list"

section \<open>Primitive effects\<close>

definition sendMessage :: "env \<Rightarrow> chat \<Rightarrow> wa_content \<Rightarrow> 'r world \<Rightarrow> 'r world completion" where
  "sendMessage e c m w =
     (let w' = w\<lparr>sendMessage_calls := Suc (sendMessage_calls w)\<rparr> in
      if sendMessage_rejects e (sendMessage_calls w) m then Thrown w'
      else Done (w'\<lparr>whatsapp_sent := whatsapp_sent w' @ [(c, m)]\<rparr>))"

definition console_err :: "jsstring \<Rightarrow> 'r world \<Rightarrow> 'r world" where
  "console_err s w = w\<lparr>console_error := console_error w @ [s]\<rparr>"

definition writeFileSync :: "jsstring \<Rightarrow> bytes \<Rightarrow> 'r world \<Rightarrow> 'r world" where
  "writeFileSync p d w = w\<lparr>files := AList.update p d (files w)\<rparr>"

definition unlinkSync :: "jsstring \<Rightarrow> 'r world \<Rightarrow> 'r world" where
  "unlinkSync p w = w\<lparr>files := AList.delete p (files w)\<rparr>"

definition path_join :: "jsstring \<Rightarrow> jsstring \<Rightarrow> jsstring" where
  "path_join d f = d @ js ''/'' @ f"

section \<open>Flushing the collected responses\<close>

subsection \<open>part\_000\<close>

definition no_response_P :: jsstring where
  "no_response_P = 9200 # js '' *Keine Antworten in 30 Sekunden erhalten.*''"

definition send_failed_notice :: "jsstring \<Rightarrow> jsstring" where
  "send_failed_notice n = 10060 # js '' Fehler beim Senden der Datei: '' @ n"

text \<open>The \<open>try\<close> block around one attachment.\<close>

definition try_attachment_P :: "env \<Rightarrow> chat \<Rightarrow> stored_attachment \<Rightarrow> 'r world \<Rightarrow> 'r world completion" where
  "try_attachment_P e c a w =
     (case map_of (files w) (path a) of
        None \<Rightarrow> Done w
      | Some d \<Rightarrow>
          then_do
            (if endsWith (toLowerCase (name a)) (js ''.txt'')
             then sendMessage e c (Text (utf8 e d)) w
             else sendMessage e c (MediaFile (path a) d None) w)
            (\<lambda>w1. Done (unlinkSync (path a) w1)))"

text \<open>The \<open>try\<close> with its \<open>catch\<close>: the error is logged and a notice naming the file is sent.\<close>

definition send_attachment_P :: "env \<Rightarrow> chat \<Rightarrow> stored_attachment \<Rightarrow> 'r world \<Rightarrow> 'r world completion" where
  "send_attachment_P e c a w =
     catch (try_attachment_P e c a w)
       (\<lambda>w1. sendMessage e c (Text (send_failed_notice (name a)))
                (console_err (js ''Error sending attachment to WhatsApp:'') w1))"

fun send_attachments_P :: "env \<Rightarrow> chat \<Rightarrow> stored_attachment list \<Rightarrow> 'r world \<Rightarrow> 'r world completion" where
  "send_attachments_P e c [] w = Done w"
| "send_attachments_P e c (a # as) w =
     (case send_attachment_P e c a w of
        Thrown w1 \<Rightarrow> Thrown w1
      | Done w1 \<Rightarrow> send_attachments_P e c as w1)"

text \<open>One response: its text when not blank, then its attachments. The pause of one second is not modelled.\<close>

definition send_response_P :: "env \<Rightarrow> chat \<Rightarrow> response \<Rightarrow> 'r world \<Rightarrow> 'r world completion" where
  "send_response_P e c r w =
     then_do
       (if truthy (trim (r_content r)) then sendMessage e c (Text (r_content r)) w else Done w)
       (send_attachments_P e c (r_attachments r))"

fun send_responses_P :: "env \<Rightarrow> chat \<Rightarrow> response list \<Rightarrow> 'r world \<Rightarrow> 'r world completion" where
  "send_responses_P e c [] w = Done w"
| "send_responses_P e c (r # rs) w =
     (case send_response_P e c r w of
        Thrown w1 \<Rightarrow> Thrown w1
      | Done w1 \<Rightarrow> send_responses_P e c rs w1)"

definition processCollectedResponses_P :: "env \<Rightarrow> jsstring \<Rightarrow> bridgeData world \<Rightarrow> bridgeData world" where
  "processCollectedResponses_P e bridgeId w =
     (case map_of (activeMessages w) bridgeId of
        None \<Rightarrow> w
      | Some bridgeData \<Rightarrow>
          (let c = whatsappChat bridgeData;
               w1 = world_of
                 (catch
                   (if responses bridgeData = []
                    then sendMessage e c (Text no_response_P) w
                    else send_responses_P e c (responses bridgeData) w)
                   (\<lambda>w'. Done (console_err (js ''Error processing responses:'') w')))
           in w1\<lparr>activeMessages := AList.delete bridgeId (activeMessages w1)\<rparr>))"

subsection \<open>server.js, version 2.0.0\<close>

definition no_response_A :: jsstring where
  "no_response_A = 9200 # js '' *Keine Antworten in 2 Minuten erhalten.*''"

definition messageText_A :: "response \<Rightarrow> jsstring" where
  "messageText_A r = js ''**'' @ r_author r @ js ''**: '' @ r_content r"

definition caption_A :: "stored_attachment \<Rightarrow> response \<Rightarrow> jsstring" where
  "caption_A a r = [55357, 56526] @ js '' '' @ name a @ js '' (von '' @ r_author r @ js '')''"

definition summary_A :: "nat \<Rightarrow> jsstring" where
  "summary_A n = 9989 # js '' *'' @ digits n @ js '' Antwort(en) von Discord weitergeleitet.*''"

definition try_attachment_A :: "env \<Rightarrow> chat \<Rightarrow> response \<Rightarrow> stored_attachment \<Rightarrow> 'r world \<Rightarrow> 'r world completion" where
  "try_attachment_A e c r a w =
     (case map_of (files w) (path a) of
        None \<Rightarrow> Done w
      | Some d \<Rightarrow>
          then_do
            (sendMessage e c (MediaFile (path a) d (Some (caption_A a r))) w)
            (\<lambda>w1. Done (unlinkSync (path a) w1)))"

definition send_attachment_A :: "env \<Rightarrow> chat \<Rightarrow> response \<Rightarrow> stored_attachment \<Rightarrow> 'r world \<Rightarrow> 'r world completion" where
  "send_attachment_A e c r a w =
     catch (try_attachment_A e c r a w)
       (\<lambda>w1. sendMessage e c (Text (send_failed_notice (name a)))
                (console_err (js ''Error sending attachment to WhatsApp:'') w1))"

fun send_attachments_A :: "env \<Rightarrow> chat \<Rightarrow> response \<Rightarrow> stored_attachment list \<Rightarrow> 'r world \<Rightarrow> 'r world completion" where
  "send_attachments_A e c r [] w = Done w"
| "send_attachments_A e c r (a # as) w =
     (case send_attachment_A e c r a w of
        Thrown w1 \<Rightarrow> Thrown w1
      | Done w1 \<Rightarrow> send_attachments_A e c r as w1)"

definition send_response_A :: "env \<Rightarrow> chat \<Rightarrow> response \<Rightarrow> 'r world \<Rightarrow> 'r world completion" where
  "send_response_A e c r w =
     then_do
       (if truthy (trim (r_content r)) then sendMessage e c (Text (messageText_A r)) w else Done w)
       (send_attachments_A e c r (r_attachments r))"

fun send_responses_A :: "env \<Rightarrow> chat \<Rightarrow> response list \<Rightarrow> 'r world \<Rightarrow> 'r world completion" where
  "send_responses_A e c [] w = Done w"
| "send_responses_A e c (r # rs) w =
     (case send_response_A e c r w of
        Thrown w1 \<Rightarrow> Thrown w1
      | Done w1 \<Rightarrow> send_responses_A e c rs w1)"

definition processCollectedResponses_A :: "env \<Rightarrow> jsstring \<Rightarrow> bridgeData world \<Rightarrow> bridgeData world" where
  "processCollectedResponses_A e bridgeId w =
     (case map_of (activeMessages w) bridgeId of
        None \<Rightarrow> w
      | Some bridgeData \<Rightarrow>
          (let c = whatsappChat bridgeData;
               w1 = world_of
                 (catch
                   (if responses bridgeData = []
                    then sendMessage e c (Text no_response_A) w
                    else then_do (send_responses_A e c (responses bridgeData) w)
                           (sendMessage e c (Text (summary_A (length (responses bridgeData))))))
                   (\<lambda>w'. Done (console_err (js ''Error processing responses:'') w')))
           in w1\<lparr>activeMessages := AList.delete bridgeId (activeMessages w1)\<rparr>))"

section \<open>Collecting a reply (both collecting variants)\<close>

definition scratch_path :: "config \<Rightarrow> jsstring \<Rightarrow> jsstring \<Rightarrow> jsstring" where
  "scratch_path cfg pre n = path_join (uploadsDir cfg) (pre @ js ''_'' @ n)"

text \<open>
  The loop over \<open>message.attachments.values()\<close>, the same text in server.js 2.0.0 and in
  part\_000: each attachment is downloaded and written to a scratch file inside its own
  \<open>try\<close>; the \<open>catch\<close> writes to the console only.
\<close>

fun download_attachments ::
  "config \<Rightarrow> env \<Rightarrow> jsstring \<Rightarrow> discord_attachment list \<Rightarrow> stored_attachment list \<Rightarrow> 'r world \<Rightarrow>
   stored_attachment list \<times> 'r world" where
  "download_attachments cfg e bridgeId [] acc w = (acc, w)"
| "download_attachments cfg e bridgeId (a # as) acc w =
     (case axios_get e (att_url a) of
        Rejects \<Rightarrow>
          download_attachments cfg e bridgeId as acc
            (console_err (js ''Error downloading Discord attachment:'') w)
      | Resolves d \<Rightarrow>
          (let filePath = scratch_path cfg bridgeId (att_name a) in
           download_attachments cfg e bridgeId as
             (acc @ [\<lparr>name = att_name a, path = filePath, contentType = att_contentType a\<rparr>])
             (writeFileSync filePath d w)))"

text \<open>
  The loop over \<open>activeMessages.entries()\<close>. The clock is read once: the loop runs without
  suspension up to the first record inside its window, and it ends there (\<open>break\<close>). The
  \<open>push\<close> changes the record the entry holds; the entry keeps its place.
\<close>

fun collect_response ::
  "config \<Rightarrow> env \<Rightarrow> discord_message \<Rightarrow> (jsstring \<times> bridgeData) list \<Rightarrow> bridgeData world \<Rightarrow>
   (jsstring \<times> bridgeData) list \<times> bridgeData world" where
  "collect_response cfg e m [] w = ([], w)"
| "collect_response cfg e m ((bridgeId, bridgeData) # rest) w =
     (if now e - timestamp bridgeData \<le> messageTimeout cfg then
        (case download_attachments cfg e bridgeId (attachments m) [] w of
           (atts, w1) \<Rightarrow>
             ((bridgeId, bridgeData\<lparr>responses := responses bridgeData @
                 [\<lparr>r_content = content m, r_author = author_username m,
                   r_attachments = atts, r_timestamp = now e\<rparr>]\<rparr>) # rest, w1))
      else
        (case collect_response cfg e m rest w of
           (rest', w1) \<Rightarrow> ((bridgeId, bridgeData) # rest', w1)))"

definition handleDiscordMessage_A :: "config \<Rightarrow> env \<Rightarrow> discord_message \<Rightarrow> bridgeData world \<Rightarrow> bridgeData world" where
  "handleDiscordMessage_A cfg e m w =
     (if author_bot m then w
      else if channel_id m \<noteq> discordChannelId cfg then w
      else (case collect_response cfg e m (activeMessages w) w of
              (entries, w1) \<Rightarrow> w1\<lparr>activeMessages := entries\<rparr>))"

definition handleDiscordMessage_P :: "config \<Rightarrow> env \<Rightarrow> discord_message \<Rightarrow> bridgeData world \<Rightarrow> bridgeData world" where
  "handleDiscordMessage_P cfg e m w =
     (if channel_id m \<noteq> discordChannelId cfg then w
      else (case collect_response cfg e m (activeMessages w) w of
              (entries, w1) \<Rightarrow> w1\<lparr>activeMessages := entries\<rparr>))"

section \<open>Relaying a reply at once (server.js 2.2.0)\<close>

definition robot :: jsstring where
  "robot = [55358, 56598, 32]"

text \<open>
  The \<open>try\<close> block around one attachment. The file read back by \<open>readFileSync\<close> or
  \<open>MessageMedia.fromFilePath\<close> is the one written two lines before.
\<close>

definition try_attachment_B ::
  "config \<Rightarrow> env \<Rightarrow> chat \<Rightarrow> jsstring \<Rightarrow> discord_attachment \<Rightarrow> 'r world \<Rightarrow> 'r world completion" where
  "try_attachment_B cfg e c bridgeId a w =
     (case axios_get e (att_url a) of
        Rejects \<Rightarrow> Thrown w
      | Resolves d \<Rightarrow>
          (let filePath = scratch_path cfg bridgeId (att_name a);
               w1 = writeFileSync filePath d w
           in then_do
                (if endsWith (toLowerCase (att_name a)) (js ''.txt'')
                 then sendMessage e c (Text (robot @ utf8 e d)) w1
                 else sendMessage e c (MediaFile filePath d (Some (robot @ js ''Datei von Discord''))) w1)
                (\<lambda>w2. Done (case map_of (files w2) filePath of
                               None \<Rightarrow> w2
                             | Some x \<Rightarrow> unlinkSync filePath w2))))"

definition send_attachment_B ::
  "config \<Rightarrow> env \<Rightarrow> chat \<Rightarrow> jsstring \<Rightarrow> discord_attachment \<Rightarrow> 'r world \<Rightarrow> 'r world" where
  "send_attachment_B cfg e c bridgeId a w =
     (case try_attachment_B cfg e c bridgeId a w of
        Done w1 \<Rightarrow> w1
      | Thrown w1 \<Rightarrow> console_err (js ''Error downloading/sending Discord attachment:'') w1)"

fun send_attachments_B ::
  "config \<Rightarrow> env \<Rightarrow> chat \<Rightarrow> jsstring \<Rightarrow> discord_attachment list \<Rightarrow> 'r world \<Rightarrow> 'r world" where
  "send_attachments_B cfg e c bridgeId [] w = w"
| "send_attachments_B cfg e c bridgeId (a # as) w =
     send_attachments_B cfg e c bridgeId as (send_attachment_B cfg e c bridgeId a w)"

text \<open>The outer \<open>try\<close> with its \<open>catch\<close>, which writes two lines to the console.\<close>

definition relay_B ::
  "config \<Rightarrow> env \<Rightarrow> discord_message \<Rightarrow> jsstring \<Rightarrow> liveBridgeData \<Rightarrow> 'r world \<Rightarrow> 'r world" where
  "relay_B cfg e m bridgeId bridgeData w =
     (let c = whatsappChat bridgeData in
      case (if truthy (trim (content m)) then sendMessage e c (Text (robot @ content m)) w else Done w) of
        Thrown w1 \<Rightarrow>
          console_err (js ''Bridge data:'') (console_err (js ''Error forwarding response to WhatsApp:'') w1)
      | Done w1 \<Rightarrow> send_attachments_B cfg e c bridgeId (attachments m) w1)"

fun relay_first_B ::
  "config \<Rightarrow> env \<Rightarrow> discord_message \<Rightarrow> (jsstring \<times> liveBridgeData) list \<Rightarrow> 'r world \<Rightarrow> 'r world" where
  "relay_first_B cfg e m [] w = w"
| "relay_first_B cfg e m ((bridgeId, bridgeData) # rest) w =
     (if now e - timestamp bridgeData \<le> messageTimeout cfg then relay_B cfg e m bridgeId bridgeData w
      else relay_first_B cfg e m rest w)"

definition handleDiscordMessage_B ::
  "config \<Rightarrow> env \<Rightarrow> discord_message \<Rightarrow> liveBridgeData world \<Rightarrow> liveBridgeData world" where
  "handleDiscordMessage_B cfg e m w =
     (if channel_id m \<noteq> discordChannelId cfg then w
      else if author_id m = discord_user_id e then w
      else relay_first_B cfg e m (activeMessages w) w)"

definition cleanupBridgeSession :: "jsstring \<Rightarrow> liveBridgeData world \<Rightarrow> liveBridgeData world" where
  "cleanupBridgeSession bridgeId w =
     (case map_of (activeMessages w) bridgeId of
        None \<Rightarrow> w
      | Some bridgeData \<Rightarrow> w\<lparr>activeMessages := AList.delete bridgeId (activeMessages w)\<rparr>)"

section \<open>Forwarding an inbound message\<close>

definition bridgeId_of :: "env \<Rightarrow> jsstring" where
  "bridgeId_of e = number_toString (now e) @ js ''_'' @ substr_2_9 (random_toString36 e)"

definition discord_send :: "env \<Rightarrow> discord_out \<Rightarrow> 'r world \<Rightarrow> 'r world completion" where
  "discord_send e out w =
     (if discord_send_rejects e then Thrown w
      else Done (w\<lparr>discord_sent := discord_sent w @ [out]\<rparr>))"

definition setTimeout :: "task \<Rightarrow> int \<Rightarrow> 'r world \<Rightarrow> 'r world" where
  "setTimeout t delay w = w\<lparr>timers := timers w @ [(delay, t)]\<rparr>"

text \<open>
  The \<open>try\<close> block of \<open>handleWhatsAppMessage\<close>. The three variants differ in the text
  sent (\<open>discordMessage\<close>), in the prefix of the scratch file's name (\<open>pre\<close>: the bridge
  id in 2.0.0, a fresh clock reading in the others) and in the callback scheduled at the
  end (\<open>expiry\<close>). When the channel is not found the block returns from the handler.
\<close>

definition forward ::
  "config \<Rightarrow> env \<Rightarrow> wa_message \<Rightarrow> jsstring \<Rightarrow> jsstring \<Rightarrow> task \<Rightarrow> 'r world \<Rightarrow> 'r world completion" where
  "forward cfg e m discordMessage pre expiry w =
     (case channels_fetch e of
        Rejects \<Rightarrow> Thrown w
      | Resolves None \<Rightarrow> Done (console_err (js ''Discord channel not found'') w)
      | Resolves (Some discordChannel) \<Rightarrow>
          then_do
            (if hasMedia m then
               (case downloadMedia m of
                  Rejects \<Rightarrow> Thrown w
                | Resolves None \<Rightarrow> Done w
                | Resolves (Some media) \<Rightarrow>
                    (let filePath = scratch_path cfg pre (orElse (filename media) (js ''media''));
                         w1 = writeFileSync filePath (media_data media) w
                     in then_do
                          (discord_send e \<lparr>out_content = discordMessage, out_files = [filePath]\<rparr> w1)
                          (\<lambda>w2. Done (setTimeout (UnlinkIfExists filePath) 5000 w2))))
             else discord_send e \<lparr>out_content = discordMessage, out_files = []\<rparr> w)
            (\<lambda>w3. Done (setTimeout expiry (messageTimeout cfg) w3)))"

text \<open>The \<open>catch\<close> of \<open>handleWhatsAppMessage\<close>: the error is logged and the record removed.\<close>

definition forward_or_remove ::
  "config \<Rightarrow> env \<Rightarrow> wa_message \<Rightarrow> jsstring \<Rightarrow> jsstring \<Rightarrow> task \<Rightarrow> jsstring \<Rightarrow> jsstring \<Rightarrow>
   'r world \<Rightarrow> 'r world" where
  "forward_or_remove cfg e m discordMessage pre expiry line bridgeId w =
     (case forward cfg e m discordMessage pre expiry w of
        Done w1 \<Rightarrow> w1
      | Thrown w1 \<Rightarrow>
          (console_err line w1)\<lparr>activeMessages := AList.delete bridgeId (activeMessages w1)\<rparr>)"

subsection \<open>server.js, version 2.0.0\<close>

definition discordMessage_A :: "contact \<Rightarrow> jsstring \<Rightarrow> jsstring \<Rightarrow> jsstring" where
  "discordMessage_A k c bridgeId =
     js ''**From WhatsApp** ('' @ orElse (contact_name k) (orElse (pushname k) (js ''Unknown'')) @
     js ''):'' @ [10] @ c @ [10, 10] @ js ''*Bridge ID: '' @ bridgeId @ js ''*''"

definition handleWhatsAppMessage_A ::
  "config \<Rightarrow> env \<Rightarrow> wa_message \<Rightarrow> bridgeData world \<Rightarrow> bridgeData world completion" where
  "handleWhatsAppMessage_A cfg e m w =
     (if \<not> startsWith (body m) (triggerChar cfg) then Done w
      else if msg_from m = js ''status@broadcast'' then Done w
      else if \<not> truthy (trim (substring1 (body m))) then Done w
      else
        (case getChat m of
           Rejects \<Rightarrow> Thrown w
         | Resolves c \<Rightarrow>
             (case getContact m of
                Rejects \<Rightarrow> Thrown w
              | Resolves k \<Rightarrow>
                  (let bridgeId = bridgeId_of e;
                       w1 = w\<lparr>activeMessages := AList.update bridgeId
                              \<lparr>whatsappChatId = msg_from m, whatsappChat = c, originalMessage = m,
                                timestamp = now e, responses = []\<rparr> (activeMessages w)\<rparr>
                   in Done (forward_or_remove cfg e m
                        (discordMessage_A k (trim (substring1 (body m))) bridgeId) bridgeId
                        (ProcessCollectedResponses bridgeId)
                        (js ''Error bridging message to Discord:'') bridgeId w1)))))"

subsection \<open>part\_000\<close>

definition handleWhatsAppMessage_P ::
  "config \<Rightarrow> env \<Rightarrow> wa_message \<Rightarrow> bridgeData world \<Rightarrow> bridgeData world completion" where
  "handleWhatsAppMessage_P cfg e m w =
     (if \<not> startsWith (body m) (triggerChar cfg) then Done w
      else if msg_from m = js ''status@broadcast'' then Done w
      else if \<not> truthy (trim (body m)) then Done w
      else
        (case getChat m of
           Rejects \<Rightarrow> Thrown w
         | Resolves c \<Rightarrow>
             (case getContact m of
                Rejects \<Rightarrow> Thrown w
              | Resolves k \<Rightarrow>
                  (let bridgeId = bridgeId_of e;
                       w1 = w\<lparr>activeMessages := AList.update bridgeId
                              \<lparr>whatsappChatId = msg_from m, whatsappChat = c, originalMessage = m,
                                timestamp = now e, responses = []\<rparr> (activeMessages w)\<rparr>
                   in Done (forward_or_remove cfg e m
                        (trim (body m)) (number_toString (now_file e))
                        (ProcessCollectedResponses bridgeId)
                        (js ''Error sending message to Discord:'') bridgeId w1)))))"

subsection \<open>server.js, version 2.2.0\<close>



section \<open>What a flush is expected to relay\<close>

text \<open>
  The messages one collected entry stands for, written without effects, to compare the
  handlers with. \<open>bad\<close> tells which contents the platform refuses; \<open>fs\<close> is the scratch
  directory when the flush starts. An entry stands for its text when the text is not
  blank, then for one message per attachment whose scratch file exists: the content of
  the attachment, or the failure notice naming it when the platform refuses the content.
\<close>

definition attachment_content_P :: "env \<Rightarrow> stored_attachment \<Rightarrow> bytes \<Rightarrow> wa_content" where
  "attachment_content_P e a d =
     (if endsWith (toLowerCase (name a)) (js ''.txt'') then Text (utf8 e d)
      else MediaFile (path a) d None)"

definition expected_attachment_P ::
  "env \<Rightarrow> (wa_content \<Rightarrow> bool) \<Rightarrow> (jsstring \<times> bytes) list \<Rightarrow> stored_attachment \<Rightarrow> wa_content list" where
  "expected_attachment_P e bad fs a =
     (case map_of fs (path a) of
        None \<Rightarrow> []
      | Some d \<Rightarrow>
          [if bad (attachment_content_P e a d) then Text (send_failed_notice (name a))
           else attachment_content_P e a d])"

definition send_fails_P ::
  "env \<Rightarrow> (wa_content \<Rightarrow> bool) \<Rightarrow> (jsstring \<times> bytes) list \<Rightarrow> stored_attachment \<Rightarrow> bool" where
  "send_fails_P e bad fs a =
     (case map_of fs (path a) of None \<Rightarrow> False | Some d \<Rightarrow> bad (attachment_content_P e a d))"

definition expected_entry_P ::
  "env \<Rightarrow> (wa_content \<Rightarrow> bool) \<Rightarrow> (jsstring \<times> bytes) list \<Rightarrow> response \<Rightarrow> wa_content list" where
  "expected_entry_P e bad fs r =
     (if truthy (trim (r_content r)) then [Text (r_content r)] else []) @
     concat (map (expected_attachment_P e bad fs) (r_attachments r))"

definition attachment_line :: jsstring where
  "attachment_line = js ''Error sending attachment to WhatsApp:''"

definition attachment_content_A :: "response \<Rightarrow> stored_attachment \<Rightarrow> bytes \<Rightarrow> wa_content" where
  "attachment_content_A r a d = MediaFile (path a) d (Some (caption_A a r))"

definition expected_attachment_A ::
  "(wa_content \<Rightarrow> bool) \<Rightarrow> (jsstring \<times> bytes) list \<Rightarrow> response \<Rightarrow> stored_attachment \<Rightarrow> wa_content list" where
  "expected_attachment_A bad fs r a =
     (case map_of fs (path a) of
        None \<Rightarrow> []
      | Some d \<Rightarrow>
          [if bad (attachment_content_A r a d) then Text (send_failed_notice (name a))
           else attachment_content_A r a d])"

definition send_fails_A ::
  "(wa_content \<Rightarrow> bool) \<Rightarrow> (jsstring \<times> bytes) list \<Rightarrow> response \<Rightarrow> stored_attachment \<Rightarrow> bool" where
  "send_fails_A bad fs r a =
     (case map_of fs (path a) of None \<Rightarrow> False | Some d \<Rightarrow> bad (attachment_content_A r a d))"

definition expected_entry_A ::
  "(wa_content \<Rightarrow> bool) \<Rightarrow> (jsstring \<times> bytes) list \<Rightarrow> response \<Rightarrow> wa_content list" where
  "expected_entry_A bad fs r =
     (if truthy (trim (r_content r)) then [Text (messageText_A r)] else []) @
     concat (map (expected_attachment_A bad fs r) (r_attachments r))"

section \<open>What the live relay is expected to send for an attachment\<close>






section \<open>The window test\<close>

text \<open>The condition \<open>timeDiff <= CONFIG.messageTimeout\<close> of the loops over the store.\<close>

abbreviation in_window :: "config \<Rightarrow> env \<Rightarrow> 'a bridgeCore_scheme \<Rightarrow> bool" where
  "in_window cfg e bd \<equiv> now e - timestamp bd \<le> messageTimeout cfg"

section \<open>Example inputs\<close>

text \<open>
  A configuration with the trigger \<open>.\<close> and a window of two minutes, surroundings in
  which every call succeeds, a direct conversation and a group, and a reply \<open>pong\<close> in
  the bridge channel. At the clock reading 200000 a record created at 80000 is exactly
  at the end of its window, one created at 79999 is past it.
\<close>

definition cfg0 :: config where
  "cfg0 = \<lparr>discordChannelId = js ''bridge'', messageTimeout = 120000, triggerChar = js ''.'',
           uploadsDir = js ''/tmp''\<rparr>"

definition env0 :: env where
  "env0 = \<lparr>now = 200000, now_file = 200001, random_toString36 = js ''0.4fzyo82mvyr'',
           channels_fetch = Resolves (Some ()), discord_send_rejects = False,
           discord_user_id = js ''bot'', axios_get = (\<lambda>u. Resolves [104, 105]),
           sendMessage_rejects = (\<lambda>n x. False), utf8 = (\<lambda>b. b)\<rparr>"

definition chat_alice :: chat where
  "chat_alice = \<lparr>chat_id = js ''alice@c.us'', chat_isGroup = False, chat_name = js ''Alice''\<rparr>"

definition chat_team :: chat where
  "chat_team = \<lparr>chat_id = js ''team@g.us'', chat_isGroup = True, chat_name = js ''Team''\<rparr>"

definition ping_alice :: wa_message where
  "ping_alice = \<lparr>body = js ''.ping'', msg_from = js ''alice@c.us'', msg_author = None,
     hasMedia = False, getChat = Resolves chat_alice,
     getContact = Resolves \<lparr>contact_name = Some (js ''Alice''), pushname = None\<rparr>,
     downloadMedia = Resolves None\<rparr>"

definition ping_team :: wa_message where
  "ping_team = \<lparr>body = js ''.ping'', msg_from = js ''team@g.us'',
     msg_author = Some (js ''carol@c.us''), hasMedia = False, getChat = Resolves chat_team,
     getContact = Resolves \<lparr>contact_name = None, pushname = Some (js ''Carol'')\<rparr>,
     downloadMedia = Resolves None\<rparr>"

definition rec_old :: bridgeData where
  "rec_old = \<lparr>whatsappChatId = js ''alice@c.us'', whatsappChat = chat_alice,
     originalMessage = ping_alice, timestamp = 79999, responses = []\<rparr>"

definition rec_alice :: bridgeData where
  "rec_alice = \<lparr>whatsappChatId = js ''alice@c.us'', whatsappChat = chat_alice,
     originalMessage = ping_alice, timestamp = 80000, responses = []\<rparr>"

definition rec_team :: bridgeData where
  "rec_team = \<lparr>whatsappChatId = js ''team@g.us'', whatsappChat = chat_team,
     originalMessage = ping_team, timestamp = 150000, responses = []\<rparr>"

definition live_alice :: liveBridgeData where
  "live_alice = \<lparr>whatsappChatId = js ''alice@c.us'', whatsappChat = chat_alice,
     originalMessage = ping_alice, timestamp = 80000, isGroup = False, groupName = None\<rparr>"


definition pong :: discord_message where
  "pong = \<lparr>content = js ''pong'', author_username = js ''bob'', author_id = js ''u1'',
     author_bot = False, channel_id = js ''bridge'', attachments = []\<rparr>"

definition bot_pong :: discord_message where
  "bot_pong = pong\<lparr>author_bot := True\<rparr>"

definition pong_entry :: response where
  "pong_entry = \<lparr>r_content = js ''pong'', r_author = js ''bob'', r_attachments = [],
     r_timestamp = 200000\<rparr>"

definition store_of :: "(jsstring \<times> 'r) list \<Rightarrow> 'r world" where
  "store_of es = \<lparr>activeMessages = es, files = [], discord_sent = [], whatsapp_sent = [],
     sendMessage_calls = 0, timers = [], console_error = []\<rparr>"

text \<open>
  Inbound messages that are not forwarded or whose forwarding fails: a body with a space
  before the trigger, a body without the trigger, surroundings in which the bridge
  channel is not found (\<open>channels.fetch\<close> resolves to \<open>null\<close>), and surroundings in which
  the send to platform B rejects.
\<close>

definition spaced_ping :: wa_message where
  "spaced_ping = ping_alice\<lparr>body := js '' .ping''\<rparr>"

definition hello :: wa_message where
  "hello = ping_alice\<lparr>body := js ''hello''\<rparr>"

definition env_no_channel :: env where
  "env_no_channel = env0\<lparr>channels_fetch := Resolves None\<rparr>"

definition env_send_rejects :: env where
  "env_send_rejects = env0\<lparr>discord_send_rejects := True\<rparr>"

text \<open>
  Replies with attachments, surroundings in which downloads or sends fail, and an
  inbound message with media.
\<close>

fun is_media :: "wa_content \<Rightarrow> bool" where
  "is_media (Text t) = False"
| "is_media (MediaFile p d c) = True"

definition photo :: discord_attachment where
  "photo = \<lparr>att_url = js ''https://cdn.example/photo.png'', att_name = js ''photo.png'',
     att_contentType = Some (js ''image/png'')\<rparr>"

definition notes_txt :: discord_attachment where
  "notes_txt = \<lparr>att_url = js ''https://cdn.example/notes.txt'', att_name = js ''notes.txt'',
     att_contentType = Some (js ''text/plain'')\<rparr>"

definition pong_photo :: discord_message where
  "pong_photo = pong\<lparr>content := js ''see file'', attachments := [photo]\<rparr>"

definition pong_notes :: discord_message where
  "pong_notes = pong\<lparr>content := [], attachments := [notes_txt]\<rparr>"

definition sticker :: discord_message where
  "sticker = pong\<lparr>content := []\<rparr>"


definition env_media_rejects :: env where
  "env_media_rejects = env0\<lparr>sendMessage_rejects := (\<lambda>n. is_media)\<rparr>"

definition env_first_send_rejects :: env where
  "env_first_send_rejects = env0\<lparr>sendMessage_rejects := (\<lambda>n x. n = 0)\<rparr>"

definition ping_media :: wa_message where
  "ping_media = ping_alice\<lparr>hasMedia := True,
     downloadMedia := Resolves (Some \<lparr>media_data = [1, 2, 3], filename = Some (js ''cat.jpg'')\<rparr>)\<rparr>"

definition one_record :: "bridgeData world" where
  "one_record = store_of [(js ''b1'', rec_alice)]"

text \<open>
  Stores after replies have been collected: two entries, the second with an attachment
  whose scratch file is present; one entry with such an attachment; and a reply that
  carries an attachment and no text.
\<close>

definition see_file_entry :: response where
  "see_file_entry = \<lparr>r_content = js ''see file'', r_author = js ''bob'',
     r_attachments = [\<lparr>name = js ''photo.png'', path = js ''/tmp/b1_photo.png'',
       contentType = Some (js ''image/png'')\<rparr>], r_timestamp = 200000\<rparr>"

definition collected :: "bridgeData world" where
  "collected = (store_of [(js ''b1'', rec_alice\<lparr>responses := [pong_entry, see_file_entry]\<rparr>)])
     \<lparr>files := [(js ''/tmp/b1_photo.png'', [104, 105])]\<rparr>"


definition photo_only :: discord_message where
  "photo_only = pong\<lparr>content := [], attachments := [photo]\<rparr>"



section \<open>Frame lemmas: sending never touches the store\<close>

lemma activeMessages_sendMessage:
  "activeMessages (world_of (sendMessage e c m w)) = activeMessages w"
  by (simp add: sendMessage_def Let_def)

lemma activeMessages_send_attachment_P:
  "activeMessages (world_of (send_attachment_P e c a w)) = activeMessages w"
proof (cases "map_of (files w) (path a)")
  case None
  then show ?thesis by (simp add: send_attachment_P_def try_attachment_P_def)
next
  case (Some d)
  then show ?thesis
    by (simp add: send_attachment_P_def try_attachment_P_def sendMessage_def Let_def
        unlinkSync_def console_err_def)
qed

lemma activeMessages_send_attachments_P:
  "activeMessages (world_of (send_attachments_P e c as w)) = activeMessages w"
proof (induction as arbitrary: w)
  case Nil
  then show ?case by simp
next
  case (Cons a as)
  show ?case
  proof (cases "send_attachment_P e c a w")
    case (Done w1)
    with Cons[of w1] activeMessages_send_attachment_P[of e c a w] show ?thesis by simp
  next
    case (Thrown w1)
    with activeMessages_send_attachment_P[of e c a w] show ?thesis by simp
  qed
qed

lemma activeMessages_send_response_P:
  "activeMessages (world_of (send_response_P e c r w)) = activeMessages w"
proof (cases "truthy (trim (r_content r))")
  case False
  then show ?thesis by (simp add: send_response_P_def activeMessages_send_attachments_P)
next
  case True
  show ?thesis
  proof (cases "sendMessage e c (Text (r_content r)) w")
    case (Done w1)
    with True activeMessages_sendMessage[of e c "Text (r_content r)" w] show ?thesis
      by (simp add: send_response_P_def activeMessages_send_attachments_P)
  next
    case (Thrown w1)
    with True activeMessages_sendMessage[of e c "Text (r_content r)" w] show ?thesis
      by (simp add: send_response_P_def)
  qed
qed

lemma activeMessages_send_responses_P:
  "activeMessages (world_of (send_responses_P e c rs w)) = activeMessages w"
proof (induction rs arbitrary: w)
  case Nil
  then show ?case by simp
next
  case (Cons r rs)
  show ?case
  proof (cases "send_response_P e c r w")
    case (Done w1)
    with Cons[of w1] activeMessages_send_response_P[of e c r w] show ?thesis by simp
  next
    case (Thrown w1)
    with activeMessages_send_response_P[of e c r w] show ?thesis by simp
  qed
qed

lemma activeMessages_catch_log:
  "activeMessages (world_of (catch r (\<lambda>w'. Done (console_err s w')))) = activeMessages (world_of r)"
  by (cases r) (simp_all add: console_err_def)

lemma activeMessages_processCollectedResponses_P:
  "activeMessages (processCollectedResponses_P e bridgeId w) =
     AList.delete bridgeId (activeMessages w)"
proof (cases "map_of (activeMessages w) bridgeId")
  case None
  then have "bridgeId \<notin> fst ` set (activeMessages w)"
    by (simp add: map_of_eq_None_iff)
  with None show ?thesis by (simp add: processCollectedResponses_P_def)
next
  case (Some bd)
  then show ?thesis
    by (simp add: processCollectedResponses_P_def Let_def activeMessages_catch_log
        activeMessages_sendMessage activeMessages_send_responses_P)
qed

lemma activeMessages_then_do:
  assumes "activeMessages (world_of r) = X"
    and "\<And>w1. activeMessages (world_of (f w1)) = activeMessages w1"
  shows "activeMessages (world_of (then_do r f)) = X"
  using assms by (cases r) simp_all

lemma activeMessages_catch:
  assumes "activeMessages (world_of r) = X"
    and "\<And>w1. activeMessages (world_of (h w1)) = activeMessages w1"
  shows "activeMessages (world_of (catch r h)) = X"
  using assms by (cases r) simp_all

lemma activeMessages_send_attachment_A:
  "activeMessages (world_of (send_attachment_A e c r a w)) = activeMessages w"
proof (cases "map_of (files w) (path a)")
  case None
  then show ?thesis by (simp add: send_attachment_A_def try_attachment_A_def)
next
  case (Some d)
  then show ?thesis
    by (simp add: send_attachment_A_def try_attachment_A_def sendMessage_def Let_def
        unlinkSync_def console_err_def)
qed

lemma activeMessages_send_attachments_A:
  "activeMessages (world_of (send_attachments_A e c r as w)) = activeMessages w"
proof (induction as arbitrary: w)
  case Nil
  then show ?case by simp
next
  case (Cons a as)
  show ?case
  proof (cases "send_attachment_A e c r a w")
    case (Done w1)
    with Cons[of w1] activeMessages_send_attachment_A[of e c r a w] show ?thesis by simp
  next
    case (Thrown w1)
    with activeMessages_send_attachment_A[of e c r a w] show ?thesis by simp
  qed
qed

lemma activeMessages_send_response_A:
  "activeMessages (world_of (send_response_A e c r w)) = activeMessages w"
  unfolding send_response_A_def
  by (rule activeMessages_then_do)
    (simp_all add: activeMessages_sendMessage activeMessages_send_attachments_A)

lemma activeMessages_send_responses_A:
  "activeMessages (world_of (send_responses_A e c rs w)) = activeMessages w"
proof (induction rs arbitrary: w)
  case Nil
  then show ?case by simp
next
  case (Cons r rs)
  show ?case
  proof (cases "send_response_A e c r w")
    case (Done w1)
    with Cons[of w1] activeMessages_send_response_A[of e c r w] show ?thesis by simp
  next
    case (Thrown w1)
    with activeMessages_send_response_A[of e c r w] show ?thesis by simp
  qed
qed

lemma activeMessages_processCollectedResponses_A:
  "activeMessages (processCollectedResponses_A e bridgeId w) =
     AList.delete bridgeId (activeMessages w)"
proof (cases "map_of (activeMessages w) bridgeId")
  case None
  then have "bridgeId \<notin> fst ` set (activeMessages w)"
    by (simp add: map_of_eq_None_iff)
  with None show ?thesis by (simp add: processCollectedResponses_A_def)
next
  case (Some bd)
  have "activeMessages (world_of (then_do (send_responses_A e (whatsappChat bd) (responses bd) w)
          (sendMessage e (whatsappChat bd) (Text (summary_A (length (responses bd))))))) =
        activeMessages w"
    by (rule activeMessages_then_do)
      (simp_all add: activeMessages_send_responses_A activeMessages_sendMessage)
  with Some show ?thesis
    by (simp add: processCollectedResponses_A_def Let_def activeMessages_catch_log
        activeMessages_sendMessage)
qed

lemma map_of_delete_same: "map_of (AList.delete k al) k = None"
  by (simp add: AList.delete_conv')

section \<open>The flush runs at most once per bridge id\<close>

text \<open>
  C10. The flush removes the record of its bridge id whatever the sends do (the oracle
  \<open>e\<close> is arbitrary, so every pattern of rejected sends is covered) and leaves the other
  records as they are. A second run with the same id, under any surroundings \<open>e'\<close>, finds
  no record and returns the state it was given: nothing more is sent, nothing is logged,
  the store is the same. This holds for both collecting variants.
\<close>

theorem processCollectedResponses_at_most_once:
  "map_of (activeMessages (processCollectedResponses_P e bridgeId w)) bridgeId = None \<and>
   activeMessages (processCollectedResponses_P e bridgeId w) = AList.delete bridgeId (activeMessages w) \<and>
   processCollectedResponses_P e' bridgeId (processCollectedResponses_P e bridgeId w) =
     processCollectedResponses_P e bridgeId w \<and>
   map_of (activeMessages (processCollectedResponses_A e bridgeId w)) bridgeId = None \<and>
   activeMessages (processCollectedResponses_A e bridgeId w) = AList.delete bridgeId (activeMessages w) \<and>
   processCollectedResponses_A e' bridgeId (processCollectedResponses_A e bridgeId w) =
     processCollectedResponses_A e bridgeId w"
proof -
  have p: "map_of (activeMessages (processCollectedResponses_P e bridgeId w)) bridgeId = None"
    by (simp add: activeMessages_processCollectedResponses_P map_of_delete_same)
  have a: "map_of (activeMessages (processCollectedResponses_A e bridgeId w)) bridgeId = None"
    by (simp add: activeMessages_processCollectedResponses_A map_of_delete_same)
  have p2: "processCollectedResponses_P e' bridgeId (processCollectedResponses_P e bridgeId w) =
      processCollectedResponses_P e bridgeId w"
    using p by (simp add: processCollectedResponses_P_def[of e' bridgeId])
  have a2: "processCollectedResponses_A e' bridgeId (processCollectedResponses_A e bridgeId w) =
      processCollectedResponses_A e bridgeId w"
    using a by (simp add: processCollectedResponses_A_def[of e' bridgeId])
  show ?thesis
    using p a p2 a2
    by (simp add: activeMessages_processCollectedResponses_P
        activeMessages_processCollectedResponses_A)
qed

section \<open>Which record a reply is attributed to\<close>

lemma collect_response_none:
  "list_all (\<lambda>(b, bd). \<not> in_window cfg e bd) es \<Longrightarrow>
   collect_response cfg e m es w = (es, w)"
  by (induction es) auto

lemma collect_response_first:
  "list_all (\<lambda>(b, bd). \<not> in_window cfg e bd) pre \<Longrightarrow>
   in_window cfg e bridgeData \<Longrightarrow>
   collect_response cfg e m (pre @ (bridgeId, bridgeData) # post) w =
     (pre @ (bridgeId, bridgeData\<lparr>responses := responses bridgeData @
         [\<lparr>r_content = content m, r_author = author_username m,
           r_attachments = fst (download_attachments cfg e bridgeId (attachments m) [] w),
           r_timestamp = now e\<rparr>]\<rparr>) # post,
      snd (download_attachments cfg e bridgeId (attachments m) [] w))"
  by (induction pre) (auto split: prod.splits)

text \<open>
  C1, as amended. For a reply in the bridge channel, in both collecting variants: when no
  record is inside its window the reply is attributed to none and the state is left as it
  was; otherwise the reply is appended to the first record, in insertion order, for which
  \<open>now - timestamp \<le> messageTimeout\<close> holds, and to no other: the records before it
  (all past their window) and the records after it (inside their window or not) stay as
  they were. So a record past its window is never attributed a reply although it is
  still in the store, and a record inside its window is attributed the reply exactly when
  no earlier record is inside its window. In server.js 2.0.0 a reply whose author is a
  bot is attributed to no record.
\<close>

theorem reply_attribution:
  assumes "channel_id m = discordChannelId cfg"
  shows
    "(list_all (\<lambda>(b, bd). \<not> in_window cfg e bd) (activeMessages w) \<longrightarrow>
        handleDiscordMessage_P cfg e m w = w \<and> handleDiscordMessage_A cfg e m w = w) \<and>
     (activeMessages w = pre @ (bridgeId, bridgeData) # post \<and>
      list_all (\<lambda>(b, bd). \<not> in_window cfg e bd) pre \<and> in_window cfg e bridgeData \<longrightarrow>
        activeMessages (handleDiscordMessage_P cfg e m w) =
          pre @ (bridgeId, bridgeData\<lparr>responses := responses bridgeData @
            [\<lparr>r_content = content m, r_author = author_username m,
              r_attachments = fst (download_attachments cfg e bridgeId (attachments m) [] w),
              r_timestamp = now e\<rparr>]\<rparr>) # post \<and>
        activeMessages (handleDiscordMessage_A cfg e m w) =
          (if author_bot m then activeMessages w
           else activeMessages (handleDiscordMessage_P cfg e m w)))"
  using assms
  by (auto simp add: handleDiscordMessage_P_def handleDiscordMessage_A_def
      collect_response_none collect_response_first)

theorem reply_attribution_witness:
  "activeMessages (handleDiscordMessage_P cfg0 env0 pong
      (store_of [(js ''b0'', rec_old), (js ''b1'', rec_alice), (js ''b2'', rec_team)])) =
     [(js ''b0'', rec_old), (js ''b1'', rec_alice\<lparr>responses := [pong_entry]\<rparr>), (js ''b2'', rec_team)] \<and>
   activeMessages (handleDiscordMessage_A cfg0 env0 pong
      (store_of [(js ''b0'', rec_old), (js ''b1'', rec_alice), (js ''b2'', rec_team)])) =
     [(js ''b0'', rec_old), (js ''b1'', rec_alice\<lparr>responses := [pong_entry]\<rparr>), (js ''b2'', rec_team)] \<and>
   handleDiscordMessage_P cfg0 env0 pong (store_of [(js ''b0'', rec_old)]) =
     store_of [(js ''b0'', rec_old)]"
proof -
  have ch: "channel_id pong = discordChannelId cfg0"
    by (simp add: pong_def cfg0_def)
  have old: "list_all (\<lambda>(b, bd). \<not> in_window cfg0 env0 bd) [(js ''b0'', rec_old)]"
    by (simp add: rec_old_def cfg0_def env0_def)
  have alice: "in_window cfg0 env0 rec_alice"
    by (simp add: rec_alice_def cfg0_def env0_def)
  have entry: "\<lparr>r_content = content pong, r_author = author_username pong,
      r_attachments = fst (download_attachments cfg0 env0 (js ''b1'') (attachments pong) []
        (store_of [(js ''b0'', rec_old), (js ''b1'', rec_alice), (js ''b2'', rec_team)])),
      r_timestamp = now env0\<rparr> = pong_entry"
    by (simp add: pong_def pong_entry_def env0_def)
  show ?thesis
    using reply_attribution [OF ch, where e = env0
        and w = "store_of [(js ''b0'', rec_old), (js ''b1'', rec_alice), (js ''b2'', rec_team)]"
        and pre = "[(js ''b0'', rec_old)]" and bridgeId = "js ''b1''" and bridgeData = rec_alice
        and post = "[(js ''b2'', rec_team)]"]
      reply_attribution [OF ch, where e = env0 and w = "store_of [(js ''b0'', rec_old)]"
        and pre = "[]" and bridgeId = "js ''b0''" and bridgeData = rec_old and post = "[]"]
      old alice entry
    by (simp add: store_of_def rec_alice_def pong_def)
qed

text \<open>
  Two runs against the claim as it was stated. With two records inside their window the
  second is not attributed the reply. In server.js 2.0.0 a reply in the bridge channel
  whose author is a bot is attributed to no record, although the only record is inside
  its window.
\<close>

theorem reply_attribution_counterexample:
  "channel_id pong = discordChannelId cfg0 \<and>
   now env0 - timestamp rec_team \<le> messageTimeout cfg0 \<and>
   map_of (activeMessages (handleDiscordMessage_P cfg0 env0 pong
      (store_of [(js ''b1'', rec_alice), (js ''b2'', rec_team)]))) (js ''b2'') = Some rec_team \<and>
   responses rec_team = [] \<and>
   channel_id bot_pong = discordChannelId cfg0 \<and>
   now env0 - timestamp rec_alice \<le> messageTimeout cfg0 \<and>
   handleDiscordMessage_A cfg0 env0 bot_pong (store_of [(js ''b1'', rec_alice)]) =
     store_of [(js ''b1'', rec_alice)]"
  by (simp add: handleDiscordMessage_P_def handleDiscordMessage_A_def cfg0_def env0_def pong_def
      bot_pong_def store_of_def rec_team_def rec_alice_def js_def)

section \<open>Which records a reply reaches\<close>






lemma relay_first_B_none:
  "list_all (\<lambda>(b, bd). \<not> in_window cfg e bd) es \<Longrightarrow> relay_first_B cfg e m es w = w"
  by (induction es) auto



section \<open>Admission of an inbound message\<close>

lemma forward_ok:
  assumes "channels_fetch e = Resolves (Some ch)" "\<not> discord_send_rejects e"
    "hasMedia m \<longrightarrow> downloadMedia m = Resolves (Some med)"
  shows "activeMessages (forward_or_remove cfg e m txt pre expiry line b w) = activeMessages w \<and>
         map out_content (discord_sent (forward_or_remove cfg e m txt pre expiry line b w)) =
           map out_content (discord_sent w) @ [txt]"
  using assms
  by (cases "hasMedia m")
    (simp_all add: forward_or_remove_def forward_def discord_send_def setTimeout_def
      writeFileSync_def Let_def)

text \<open>
  C2, as amended. The test for the trigger is made on the body as received, not on the
  trimmed body. Where the conversation and the contact resolve, the bridge channel is
  found, the media (if any) downloads and the send to platform B succeeds: a record is
  stored under the fresh bridge id and one message is forwarded if the body starts with
  the trigger, the origin is not \<open>status@broadcast\<close> and the content is not empty (the
  trimmed body in part\_000; the body without its first code unit, trimmed, in server.js
  2.0.0); every other event is ignored and the state is left as it was: no record, nothing
  forwarded.
\<close>

theorem admission:
  assumes "getChat m = Resolves c" "getContact m = Resolves k"
    "channels_fetch e = Resolves (Some ch)" "\<not> discord_send_rejects e"
    "hasMedia m \<longrightarrow> downloadMedia m = Resolves (Some med)"
  shows
    "(if startsWith (body m) (triggerChar cfg) \<and> msg_from m \<noteq> js ''status@broadcast'' \<and>
         truthy (trim (body m))
      then activeMessages (world_of (handleWhatsAppMessage_P cfg e m w)) =
             AList.update (bridgeId_of e)
               \<lparr>whatsappChatId = msg_from m, whatsappChat = c, originalMessage = m,
                 timestamp = now e, responses = []\<rparr> (activeMessages w) \<and>
           map out_content (discord_sent (world_of (handleWhatsAppMessage_P cfg e m w))) =
             map out_content (discord_sent w) @ [trim (body m)]
      else handleWhatsAppMessage_P cfg e m w = Done w) \<and>
     (if startsWith (body m) (triggerChar cfg) \<and> msg_from m \<noteq> js ''status@broadcast'' \<and>
         truthy (trim (substring1 (body m)))
      then activeMessages (world_of (handleWhatsAppMessage_A cfg e m w)) =
             AList.update (bridgeId_of e)
               \<lparr>whatsappChatId = msg_from m, whatsappChat = c, originalMessage = m,
                 timestamp = now e, responses = []\<rparr> (activeMessages w) \<and>
           map out_content (discord_sent (world_of (handleWhatsAppMessage_A cfg e m w))) =
             map out_content (discord_sent w) @
               [discordMessage_A k (trim (substring1 (body m))) (bridgeId_of e)]
      else handleWhatsAppMessage_A cfg e m w = Done w)"
  using assms(1,2)
  by (simp add: handleWhatsAppMessage_P_def handleWhatsAppMessage_A_def Let_def
      forward_ok[OF assms(3,4,5)])

theorem admission_witness:
  "map fst (activeMessages (world_of (handleWhatsAppMessage_P cfg0 env0 ping_alice (store_of [])))) =
     [js ''200000_4fzyo82mv''] \<and>
   map out_content (discord_sent (world_of (handleWhatsAppMessage_P cfg0 env0 ping_alice (store_of [])))) =
     [js ''.ping''] \<and>
   handleWhatsAppMessage_P cfg0 env0 hello (store_of []) = Done (store_of []) \<and>
   handleWhatsAppMessage_A cfg0 env0 hello (store_of []) = Done (store_of [])"
proof -
  have c: "getChat ping_alice = Resolves chat_alice" "getChat hello = Resolves chat_alice"
    by (simp_all add: ping_alice_def hello_def)
  have k: "getContact ping_alice = Resolves \<lparr>contact_name = Some (js ''Alice''), pushname = None\<rparr>"
    "getContact hello = Resolves \<lparr>contact_name = Some (js ''Alice''), pushname = None\<rparr>"
    by (simp_all add: ping_alice_def hello_def)
  have f: "channels_fetch env0 = Resolves (Some ())" "\<not> discord_send_rejects env0"
    by (simp_all add: env0_def)
  have d: "hasMedia ping_alice \<longrightarrow> downloadMedia ping_alice = Resolves (Some \<lparr>media_data = [], filename = None\<rparr>)"
    "hasMedia hello \<longrightarrow> downloadMedia hello = Resolves (Some \<lparr>media_data = [], filename = None\<rparr>)"
    by (simp_all add: ping_alice_def hello_def)
  have b: "bridgeId_of env0 = js ''200000_4fzyo82mv''"
    by (simp add: bridgeId_of_def env0_def number_toString_def digits.simps substr_2_9_def js_def)
  have t: "startsWith (body ping_alice) (triggerChar cfg0)" "truthy (trim (body ping_alice))"
    "msg_from ping_alice \<noteq> js ''status@broadcast''" "trim (body ping_alice) = js ''.ping''"
    "\<not> startsWith (body hello) (triggerChar cfg0)"
    by (simp_all add: ping_alice_def hello_def cfg0_def startsWith_def truthy_def trim_def
        isWhiteSpace_def js_def)
  show ?thesis
    using admission [OF c(1) k(1) f d(1), of cfg0 "store_of []"]
      admission [OF c(2) k(2) f d(2), of cfg0 "store_of []"] b t
    by (simp add: store_of_def)
qed

theorem admission_counterexample:
  "startsWith (trim (body spaced_ping)) (triggerChar cfg0) \<and>
   msg_from spaced_ping \<noteq> js ''status@broadcast'' \<and>
   truthy (trim (body spaced_ping)) \<and>
   truthy (trim (substring1 (trim (body spaced_ping)))) \<and>
   handleWhatsAppMessage_P cfg0 env0 spaced_ping (store_of []) = Done (store_of []) \<and>
   handleWhatsAppMessage_A cfg0 env0 spaced_ping (store_of []) = Done (store_of [])"
  by (simp add: handleWhatsAppMessage_P_def handleWhatsAppMessage_A_def spaced_ping_def
      ping_alice_def cfg0_def startsWith_def trim_def isWhiteSpace_def truthy_def substring1_def
      js_def)

section \<open>A forward that fails\<close>

text \<open>
  C6. When the bridge channel is not found (\<open>channels.fetch\<close> resolves to \<open>null\<close>) the
  handler logs and returns from inside the \<open>try\<close>: the record stored just before stays
  in the store, nothing is forwarded and no expiry callback is scheduled. When the send
  to platform B rejects, the \<open>catch\<close> removes the record.
\<close>

theorem channel_missing_keeps_record:
  "channels_fetch env_no_channel = Resolves None \<and>
   map fst (activeMessages (world_of (handleWhatsAppMessage_A cfg0 env_no_channel ping_alice (store_of [])))) =
     [bridgeId_of env_no_channel] \<and>
   discord_sent (world_of (handleWhatsAppMessage_A cfg0 env_no_channel ping_alice (store_of []))) = [] \<and>
   timers (world_of (handleWhatsAppMessage_A cfg0 env_no_channel ping_alice (store_of []))) = [] \<and>
   map fst (activeMessages (world_of (handleWhatsAppMessage_P cfg0 env_no_channel ping_alice (store_of [])))) =
     [bridgeId_of env_no_channel] \<and>
   discord_sent (world_of (handleWhatsAppMessage_P cfg0 env_no_channel ping_alice (store_of []))) = [] \<and>
   timers (world_of (handleWhatsAppMessage_P cfg0 env_no_channel ping_alice (store_of []))) = [] \<and>
   activeMessages (world_of (handleWhatsAppMessage_A cfg0 env_send_rejects ping_alice (store_of []))) = [] \<and>
   activeMessages (world_of (handleWhatsAppMessage_P cfg0 env_send_rejects ping_alice (store_of []))) = []"
  by (simp add: handleWhatsAppMessage_A_def handleWhatsAppMessage_P_def
      forward_or_remove_def forward_def discord_send_def console_err_def
      setTimeout_def Let_def ping_alice_def cfg0_def env0_def env_no_channel_def
      env_send_rejects_def store_of_def
      startsWith_def truthy_def trim_def substring1_def isWhiteSpace_def js_def)

section \<open>The handlers relay what is expected\<close>

lemma sendMessage_ok:
  "\<not> sendMessage_rejects e (sendMessage_calls w) x \<Longrightarrow>
   sendMessage e c x w =
     Done (w\<lparr>sendMessage_calls := Suc (sendMessage_calls w), whatsapp_sent := whatsapp_sent w @ [(c, x)]\<rparr>)"
  by (simp add: sendMessage_def Let_def)

lemma sendMessage_rejected:
  "sendMessage_rejects e (sendMessage_calls w) x \<Longrightarrow>
   sendMessage e c x w = Thrown (w\<lparr>sendMessage_calls := Suc (sendMessage_calls w)\<rparr>)"
  by (simp add: sendMessage_def Let_def)

lemma completes_Done [simp]: "completes (Done w)"
  by (simp add: completes_def)

lemma completes_Thrown [simp]: "\<not> completes (Thrown w)"
  by (simp add: completes_def)

lemma completes_case:
  "completes r \<Longrightarrow> (case r of Done w1 \<Rightarrow> f w1 | Thrown w1 \<Rightarrow> Thrown w1) = f (world_of r)"
  by (cases r) simp_all

lemma completes_then_do: "completes r \<Longrightarrow> then_do r f = f (world_of r)"
  by (cases r) simp_all

lemma send_attachment_P_step:
  assumes orc: "\<And>n x. sendMessage_rejects e n x = bad x" and texts: "\<And>t. \<not> bad (Text t)"
  shows "completes (send_attachment_P e c a w) \<and>
      whatsapp_sent (world_of (send_attachment_P e c a w)) =
        whatsapp_sent w @ map (Pair c) (expected_attachment_P e bad (files w) a) \<and>
      console_error (world_of (send_attachment_P e c a w)) = console_error w @
        (if send_fails_P e bad (files w) a then [attachment_line] else []) \<and>
      (\<forall>p. p \<noteq> path a \<longrightarrow> map_of (files (world_of (send_attachment_P e c a w))) p = map_of (files w) p)"
proof (cases "map_of (files w) (path a)")
  case None
  then show ?thesis
    by (simp add: send_attachment_P_def try_attachment_P_def expected_attachment_P_def
        send_fails_P_def)
next
  case (Some d)
  let ?x = "attachment_content_P e a d"
  have t: "try_attachment_P e c a w =
      then_do (sendMessage e c ?x w) (\<lambda>w1. Done (unlinkSync (path a) w1))"
    using Some by (simp add: try_attachment_P_def attachment_content_P_def)
  show ?thesis
  proof (cases "bad ?x")
    case False
    then have "send_attachment_P e c a w =
        Done (unlinkSync (path a) (w\<lparr>sendMessage_calls := Suc (sendMessage_calls w),
          whatsapp_sent := whatsapp_sent w @ [(c, ?x)]\<rparr>))"
      using t orc by (simp add: send_attachment_P_def sendMessage_ok)
    then show ?thesis
      using Some False
      by (simp add: expected_attachment_P_def send_fails_P_def unlinkSync_def
          AList.delete_conv')
  next
    case True
    have n: "\<not> sendMessage_rejects e n (Text s)" for n s
      using orc texts by simp
    have "send_attachment_P e c a w =
        sendMessage e c (Text (send_failed_notice (name a)))
          (console_err attachment_line (w\<lparr>sendMessage_calls := Suc (sendMessage_calls w)\<rparr>))"
      using t orc True
      by (simp add: send_attachment_P_def sendMessage_rejected attachment_line_def)
    then show ?thesis
      using Some True n
      by (simp add: sendMessage_ok expected_attachment_P_def send_fails_P_def console_err_def)
  qed
qed

lemma send_attachments_P_plan:
  assumes orc: "\<And>n x. sendMessage_rejects e n x = bad x" and texts: "\<And>t. \<not> bad (Text t)"
  shows "distinct (map path as) \<Longrightarrow>
    completes (send_attachments_P e c as w) \<and>
      whatsapp_sent (world_of (send_attachments_P e c as w)) =
        whatsapp_sent w @ map (Pair c) (concat (map (expected_attachment_P e bad (files w)) as)) \<and>
      console_error (world_of (send_attachments_P e c as w)) = console_error w @
        replicate (length (filter (send_fails_P e bad (files w)) as)) attachment_line \<and>
      (\<forall>p. p \<notin> set (map path as) \<longrightarrow>
         map_of (files (world_of (send_attachments_P e c as w))) p = map_of (files w) p)"
proof (induction as arbitrary: w)
  case Nil
  show ?case by simp
next
  case (Cons a as)
  define w1 where "w1 = world_of (send_attachment_P e c a w)"
  note step = send_attachment_P_step[OF orc texts, of c a w, folded w1_def]
  from Cons.prems have d: "distinct (map path as)" and na: "path a \<notin> set (map path as)"
    by simp_all
  note ih = Cons.IH[OF d, of w1]
  have r: "send_attachments_P e c (a # as) w = send_attachments_P e c as w1"
    using step by (simp add: completes_case w1_def)
  have same: "map_of (files w1) (path b) = map_of (files w) (path b)" if "b \<in> set as" for b
  proof -
    from that have "path b \<in> set (map path as)" by simp
    with na have "path b \<noteq> path a" by metis
    with step show ?thesis by simp
  qed
  have e1: "map (expected_attachment_P e bad (files w1)) as = map (expected_attachment_P e bad (files w)) as"
    by (rule map_cong) (simp_all add: same expected_attachment_P_def)
  have e2: "filter (send_fails_P e bad (files w1)) as = filter (send_fails_P e bad (files w)) as"
    by (rule filter_cong) (simp_all add: same send_fails_P_def)
  have "completes (send_attachments_P e c (a # as) w)"
    using r ih by simp
  moreover have "whatsapp_sent (world_of (send_attachments_P e c (a # as) w)) =
      whatsapp_sent w @ map (Pair c) (concat (map (expected_attachment_P e bad (files w)) (a # as)))"
    using r ih step e1 by simp
  moreover have "console_error (world_of (send_attachments_P e c (a # as) w)) = console_error w @
      replicate (length (filter (send_fails_P e bad (files w)) (a # as))) attachment_line"
    using r ih step e2 by (simp add: replicate_app_Cons_same)
  moreover have "\<forall>p. p \<notin> set (map path (a # as)) \<longrightarrow>
      map_of (files (world_of (send_attachments_P e c (a # as) w))) p = map_of (files w) p"
    using r ih step by simp
  ultimately show ?case by simp
qed

lemma send_response_P_plan:
  assumes orc: "\<And>n x. sendMessage_rejects e n x = bad x" and texts: "\<And>t. \<not> bad (Text t)"
    and d: "distinct (map path (r_attachments r))"
  shows "completes (send_response_P e c r w) \<and>
      whatsapp_sent (world_of (send_response_P e c r w)) =
        whatsapp_sent w @ map (Pair c) (expected_entry_P e bad (files w) r) \<and>
      console_error (world_of (send_response_P e c r w)) = console_error w @
        replicate (length (filter (send_fails_P e bad (files w)) (r_attachments r))) attachment_line \<and>
      (\<forall>p. p \<notin> set (map path (r_attachments r)) \<longrightarrow>
         map_of (files (world_of (send_response_P e c r w))) p = map_of (files w) p)"
proof (cases "truthy (trim (r_content r))")
  case False
  then show ?thesis
    using send_attachments_P_plan[OF orc texts d, of c w]
    by (simp add: send_response_P_def expected_entry_P_def)
next
  case True
  define w1 where "w1 = w\<lparr>sendMessage_calls := Suc (sendMessage_calls w),
      whatsapp_sent := whatsapp_sent w @ [(c, Text (r_content r))]\<rparr>"
  have s: "sendMessage e c (Text (r_content r)) w = Done w1"
    using orc texts by (simp add: sendMessage_ok w1_def)
  have f: "files w1 = files w" "console_error w1 = console_error w"
    "whatsapp_sent w1 = whatsapp_sent w @ [(c, Text (r_content r))]"
    by (simp_all add: w1_def)
  have r: "send_response_P e c r w = send_attachments_P e c (r_attachments r) w1"
    using True s by (simp add: send_response_P_def)
  show ?thesis
    using send_attachments_P_plan[OF orc texts d, of c w1] True
    by (simp add: r f expected_entry_P_def)
qed

lemma send_responses_P_plan:
  assumes orc: "\<And>n x. sendMessage_rejects e n x = bad x" and texts: "\<And>t. \<not> bad (Text t)"
  shows "distinct (map path (concat (map r_attachments rs))) \<Longrightarrow>
    completes (send_responses_P e c rs w) \<and>
      whatsapp_sent (world_of (send_responses_P e c rs w)) =
        whatsapp_sent w @ map (Pair c) (concat (map (expected_entry_P e bad (files w)) rs)) \<and>
      console_error (world_of (send_responses_P e c rs w)) = console_error w @
        replicate (length (filter (send_fails_P e bad (files w)) (concat (map r_attachments rs))))
          attachment_line \<and>
      (\<forall>p. p \<notin> set (map path (concat (map r_attachments rs))) \<longrightarrow>
         map_of (files (world_of (send_responses_P e c rs w))) p = map_of (files w) p)"
proof (induction rs arbitrary: w)
  case Nil
  show ?case by simp
next
  case (Cons r rs)
  define w1 where "w1 = world_of (send_response_P e c r w)"
  from Cons.prems have d1: "distinct (map path (r_attachments r))"
    and d2: "distinct (map path (concat (map r_attachments rs)))"
    and dis: "set (map path (r_attachments r)) \<inter> set (map path (concat (map r_attachments rs))) = {}"
    by simp_all
  note step = send_response_P_plan[OF orc texts d1, of c w, folded w1_def]
  note ih = Cons.IH[OF d2, of w1]
  have r: "send_responses_P e c (r # rs) w = send_responses_P e c rs w1"
    using step by (simp add: completes_case w1_def)
  have same: "map_of (files w1) (path b) = map_of (files w) (path b)"
    if "b \<in> set (concat (map r_attachments rs))" for b
  proof -
    from that have "path b \<in> set (map path (concat (map r_attachments rs)))"
      by (metis imageI set_map)
    with dis have "path b \<notin> set (map path (r_attachments r))" by blast
    with step show ?thesis by simp
  qed
  have a1: "map (expected_attachment_P e bad (files w1)) (r_attachments q) =
      map (expected_attachment_P e bad (files w)) (r_attachments q)" if "q \<in> set rs" for q
  proof (rule map_cong)
    fix b assume "b \<in> set (r_attachments q)"
    with that have "b \<in> set (concat (map r_attachments rs))" by auto
    then show "expected_attachment_P e bad (files w1) b = expected_attachment_P e bad (files w) b"
      by (simp add: same expected_attachment_P_def)
  qed simp
  have e1: "map (expected_entry_P e bad (files w1)) rs = map (expected_entry_P e bad (files w)) rs"
    by (rule map_cong) (simp_all add: expected_entry_P_def a1)
  have e2: "filter (send_fails_P e bad (files w1)) (concat (map r_attachments rs)) =
      filter (send_fails_P e bad (files w)) (concat (map r_attachments rs))"
    by (rule filter_cong) (simp_all add: same send_fails_P_def)
  have "completes (send_responses_P e c (r # rs) w)"
    using r ih by simp
  moreover have "whatsapp_sent (world_of (send_responses_P e c (r # rs) w)) =
      whatsapp_sent w @ map (Pair c) (concat (map (expected_entry_P e bad (files w)) (r # rs)))"
    using r ih step e1 by simp
  moreover have "console_error (world_of (send_responses_P e c (r # rs) w)) = console_error w @
      replicate (length (filter (send_fails_P e bad (files w)) (concat (map r_attachments (r # rs)))))
        attachment_line"
    using r ih step e2 by (simp add: replicate_add)
  moreover have "\<forall>p. p \<notin> set (map path (concat (map r_attachments (r # rs)))) \<longrightarrow>
      map_of (files (world_of (send_responses_P e c (r # rs) w))) p = map_of (files w) p"
    using r ih step by simp
  ultimately show ?case by simp
qed

lemma processCollectedResponses_P_plan:
  assumes orc: "\<And>n x. sendMessage_rejects e n x = bad x" and texts: "\<And>t. \<not> bad (Text t)"
    and bd: "map_of (activeMessages w) bridgeId = Some bd"
    and d: "distinct (map path (concat (map r_attachments (responses bd))))"
  shows "whatsapp_sent (processCollectedResponses_P e bridgeId w) =
      whatsapp_sent w @ map (Pair (whatsappChat bd))
        (if responses bd = [] then [Text no_response_P]
         else concat (map (expected_entry_P e bad (files w)) (responses bd))) \<and>
    console_error (processCollectedResponses_P e bridgeId w) = console_error w @
      replicate (length (filter (send_fails_P e bad (files w)) (concat (map r_attachments (responses bd)))))
        attachment_line"
proof (cases "responses bd = []")
  case True
  then show ?thesis
    using bd orc texts by (simp add: processCollectedResponses_P_def Let_def sendMessage_ok)
next
  case False
  note plan = send_responses_P_plan[OF orc texts d, of "whatsappChat bd" w]
  then have "catch (send_responses_P e (whatsappChat bd) (responses bd) w)
      (\<lambda>w'. Done (console_err (js ''Error processing responses:'') w')) =
      send_responses_P e (whatsappChat bd) (responses bd) w"
    by (cases "send_responses_P e (whatsappChat bd) (responses bd) w") simp_all
  then show ?thesis
    using bd False plan by (simp add: processCollectedResponses_P_def Let_def)
qed

lemma send_attachment_A_step:
  assumes orc: "\<And>n x. sendMessage_rejects e n x = bad x" and texts: "\<And>t. \<not> bad (Text t)"
  shows "completes (send_attachment_A e c r a w) \<and>
      whatsapp_sent (world_of (send_attachment_A e c r a w)) =
        whatsapp_sent w @ map (Pair c) (expected_attachment_A bad (files w) r a) \<and>
      console_error (world_of (send_attachment_A e c r a w)) = console_error w @
        (if send_fails_A bad (files w) r a then [attachment_line] else []) \<and>
      (\<forall>p. p \<noteq> path a \<longrightarrow> map_of (files (world_of (send_attachment_A e c r a w))) p = map_of (files w) p)"
proof (cases "map_of (files w) (path a)")
  case None
  then show ?thesis
    by (simp add: send_attachment_A_def try_attachment_A_def expected_attachment_A_def
        send_fails_A_def)
next
  case (Some d)
  let ?x = "attachment_content_A r a d"
  have t: "try_attachment_A e c r a w =
      then_do (sendMessage e c ?x w) (\<lambda>w1. Done (unlinkSync (path a) w1))"
    using Some by (simp add: try_attachment_A_def attachment_content_A_def)
  show ?thesis
  proof (cases "bad ?x")
    case False
    then have "send_attachment_A e c r a w =
        Done (unlinkSync (path a) (w\<lparr>sendMessage_calls := Suc (sendMessage_calls w),
          whatsapp_sent := whatsapp_sent w @ [(c, ?x)]\<rparr>))"
      using t orc by (simp add: send_attachment_A_def sendMessage_ok)
    then show ?thesis
      using Some False
      by (simp add: expected_attachment_A_def send_fails_A_def unlinkSync_def
          AList.delete_conv')
  next
    case True
    have n: "\<not> sendMessage_rejects e n (Text s)" for n s
      using orc texts by simp
    have "send_attachment_A e c r a w =
        sendMessage e c (Text (send_failed_notice (name a)))
          (console_err attachment_line (w\<lparr>sendMessage_calls := Suc (sendMessage_calls w)\<rparr>))"
      using t orc True
      by (simp add: send_attachment_A_def sendMessage_rejected attachment_line_def)
    then show ?thesis
      using Some True n
      by (simp add: sendMessage_ok expected_attachment_A_def send_fails_A_def console_err_def)
  qed
qed

lemma send_attachments_A_plan:
  assumes orc: "\<And>n x. sendMessage_rejects e n x = bad x" and texts: "\<And>t. \<not> bad (Text t)"
  shows "distinct (map path as) \<Longrightarrow>
    completes (send_attachments_A e c r as w) \<and>
      whatsapp_sent (world_of (send_attachments_A e c r as w)) =
        whatsapp_sent w @ map (Pair c) (concat (map (expected_attachment_A bad (files w) r) as)) \<and>
      console_error (world_of (send_attachments_A e c r as w)) = console_error w @
        replicate (length (filter (send_fails_A bad (files w) r) as)) attachment_line \<and>
      (\<forall>p. p \<notin> set (map path as) \<longrightarrow>
         map_of (files (world_of (send_attachments_A e c r as w))) p = map_of (files w) p)"
proof (induction as arbitrary: w)
  case Nil
  show ?case by simp
next
  case (Cons a as)
  define w1 where "w1 = world_of (send_attachment_A e c r a w)"
  note step = send_attachment_A_step[OF orc texts, of c r a w, folded w1_def]
  from Cons.prems have d: "distinct (map path as)" and na: "path a \<notin> set (map path as)"
    by simp_all
  note ih = Cons.IH[OF d, of w1]
  have unf: "send_attachments_A e c r (a # as) w = send_attachments_A e c r as w1"
    using step by (simp add: completes_case w1_def)
  have same: "map_of (files w1) (path b) = map_of (files w) (path b)" if "b \<in> set as" for b
  proof -
    from that have "path b \<in> set (map path as)" by simp
    with na have "path b \<noteq> path a" by metis
    with step show ?thesis by simp
  qed
  have e1: "map (expected_attachment_A bad (files w1) r) as = map (expected_attachment_A bad (files w) r) as"
    by (rule map_cong) (simp_all add: same expected_attachment_A_def)
  have e2: "filter (send_fails_A bad (files w1) r) as = filter (send_fails_A bad (files w) r) as"
    by (rule filter_cong) (simp_all add: same send_fails_A_def)
  have "completes (send_attachments_A e c r (a # as) w)"
    using unf ih by simp
  moreover have "whatsapp_sent (world_of (send_attachments_A e c r (a # as) w)) =
      whatsapp_sent w @ map (Pair c) (concat (map (expected_attachment_A bad (files w) r) (a # as)))"
    using unf ih step e1 by simp
  moreover have "console_error (world_of (send_attachments_A e c r (a # as) w)) = console_error w @
      replicate (length (filter (send_fails_A bad (files w) r) (a # as))) attachment_line"
    using unf ih step e2 by (simp add: replicate_app_Cons_same)
  moreover have "\<forall>p. p \<notin> set (map path (a # as)) \<longrightarrow>
      map_of (files (world_of (send_attachments_A e c r (a # as) w))) p = map_of (files w) p"
    using unf ih step by simp
  ultimately show ?case by simp
qed

lemma send_response_A_plan:
  assumes orc: "\<And>n x. sendMessage_rejects e n x = bad x" and texts: "\<And>t. \<not> bad (Text t)"
    and d: "distinct (map path (r_attachments r))"
  shows "completes (send_response_A e c r w) \<and>
      whatsapp_sent (world_of (send_response_A e c r w)) =
        whatsapp_sent w @ map (Pair c) (expected_entry_A bad (files w) r) \<and>
      console_error (world_of (send_response_A e c r w)) = console_error w @
        replicate (length (filter (send_fails_A bad (files w) r) (r_attachments r))) attachment_line \<and>
      (\<forall>p. p \<notin> set (map path (r_attachments r)) \<longrightarrow>
         map_of (files (world_of (send_response_A e c r w))) p = map_of (files w) p)"
proof (cases "truthy (trim (r_content r))")
  case False
  then show ?thesis
    using send_attachments_A_plan[OF orc texts d, of c r w]
    by (simp add: send_response_A_def expected_entry_A_def)
next
  case True
  define w1 where "w1 = w\<lparr>sendMessage_calls := Suc (sendMessage_calls w),
      whatsapp_sent := whatsapp_sent w @ [(c, Text (messageText_A r))]\<rparr>"
  have s: "sendMessage e c (Text (messageText_A r)) w = Done w1"
    using orc texts by (simp add: sendMessage_ok w1_def)
  have f: "files w1 = files w" "console_error w1 = console_error w"
    "whatsapp_sent w1 = whatsapp_sent w @ [(c, Text (messageText_A r))]"
    by (simp_all add: w1_def)
  have unf: "send_response_A e c r w = send_attachments_A e c r (r_attachments r) w1"
    using True s by (simp add: send_response_A_def)
  show ?thesis
    using send_attachments_A_plan[OF orc texts d, of c r w1] True
    by (simp add: unf f expected_entry_A_def)
qed

lemma send_responses_A_plan:
  assumes orc: "\<And>n x. sendMessage_rejects e n x = bad x" and texts: "\<And>t. \<not> bad (Text t)"
  shows "distinct (map path (concat (map r_attachments rs))) \<Longrightarrow>
    completes (send_responses_A e c rs w) \<and>
      whatsapp_sent (world_of (send_responses_A e c rs w)) =
        whatsapp_sent w @ map (Pair c) (concat (map (expected_entry_A bad (files w)) rs)) \<and>
      console_error (world_of (send_responses_A e c rs w)) = console_error w @
        replicate (length (concat (map (\<lambda>q. filter (send_fails_A bad (files w) q) (r_attachments q)) rs)))
          attachment_line \<and>
      (\<forall>p. p \<notin> set (map path (concat (map r_attachments rs))) \<longrightarrow>
         map_of (files (world_of (send_responses_A e c rs w))) p = map_of (files w) p)"
proof (induction rs arbitrary: w)
  case Nil
  show ?case by simp
next
  case (Cons r rs)
  define w1 where "w1 = world_of (send_response_A e c r w)"
  from Cons.prems have d1: "distinct (map path (r_attachments r))"
    and d2: "distinct (map path (concat (map r_attachments rs)))"
    and dis: "set (map path (r_attachments r)) \<inter> set (map path (concat (map r_attachments rs))) = {}"
    by simp_all
  note step = send_response_A_plan[OF orc texts d1, of c w, folded w1_def]
  note ih = Cons.IH[OF d2, of w1]
  have unf: "send_responses_A e c (r # rs) w = send_responses_A e c rs w1"
    using step by (simp add: completes_case w1_def)
  have same: "map_of (files w1) (path b) = map_of (files w) (path b)"
    if "b \<in> set (r_attachments q)" "q \<in> set rs" for b q
  proof -
    from that have "b \<in> set (concat (map r_attachments rs))" by auto
    then have "path b \<in> set (map path (concat (map r_attachments rs)))"
      by (metis imageI set_map)
    with dis have "path b \<notin> set (map path (r_attachments r))" by blast
    with step show ?thesis by simp
  qed
  have a1: "map (expected_attachment_A bad (files w1) q) (r_attachments q) =
      map (expected_attachment_A bad (files w) q) (r_attachments q)" if "q \<in> set rs" for q
    by (rule map_cong) (simp_all add: same[OF _ that] expected_attachment_A_def)
  have a2: "filter (send_fails_A bad (files w1) q) (r_attachments q) =
      filter (send_fails_A bad (files w) q) (r_attachments q)" if "q \<in> set rs" for q
    by (rule filter_cong) (simp_all add: same[OF _ that] send_fails_A_def)
  have e1: "map (expected_entry_A bad (files w1)) rs = map (expected_entry_A bad (files w)) rs"
    by (rule map_cong) (simp_all add: expected_entry_A_def a1)
  have e2: "map (\<lambda>q. filter (send_fails_A bad (files w1) q) (r_attachments q)) rs =
      map (\<lambda>q. filter (send_fails_A bad (files w) q) (r_attachments q)) rs"
    by (rule map_cong) (simp_all add: a2)
  have "completes (send_responses_A e c (r # rs) w)"
    using unf ih by simp
  moreover have "whatsapp_sent (world_of (send_responses_A e c (r # rs) w)) =
      whatsapp_sent w @ map (Pair c) (concat (map (expected_entry_A bad (files w)) (r # rs)))"
    using unf ih step e1 by simp
  moreover have "console_error (world_of (send_responses_A e c (r # rs) w)) = console_error w @
      replicate (length (concat (map (\<lambda>q. filter (send_fails_A bad (files w) q) (r_attachments q)) (r # rs))))
        attachment_line"
    using unf ih step e2 by (simp add: replicate_add)
  moreover have "\<forall>p. p \<notin> set (map path (concat (map r_attachments (r # rs)))) \<longrightarrow>
      map_of (files (world_of (send_responses_A e c (r # rs) w))) p = map_of (files w) p"
    using unf ih step by simp
  ultimately show ?case by simp
qed

lemma processCollectedResponses_A_plan:
  assumes orc: "\<And>n x. sendMessage_rejects e n x = bad x" and texts: "\<And>t. \<not> bad (Text t)"
    and bd: "map_of (activeMessages w) bridgeId = Some bd"
    and d: "distinct (map path (concat (map r_attachments (responses bd))))"
  shows "whatsapp_sent (processCollectedResponses_A e bridgeId w) =
      whatsapp_sent w @ map (Pair (whatsappChat bd))
        (if responses bd = [] then [Text no_response_A]
         else concat (map (expected_entry_A bad (files w)) (responses bd)) @
              [Text (summary_A (length (responses bd)))]) \<and>
    console_error (processCollectedResponses_A e bridgeId w) = console_error w @
      replicate (length (concat (map (\<lambda>q. filter (send_fails_A bad (files w) q) (r_attachments q))
        (responses bd)))) attachment_line"
proof (cases "responses bd = []")
  case True
  then show ?thesis
    using bd orc texts by (simp add: processCollectedResponses_A_def Let_def sendMessage_ok)
next
  case False
  let ?c = "whatsappChat bd"
  define w1 where "w1 = world_of (send_responses_A e ?c (responses bd) w)"
  note plan = send_responses_A_plan[OF orc texts d, of ?c w, folded w1_def]
  have n: "\<not> sendMessage_rejects e (sendMessage_calls w1) (Text (summary_A (length (responses bd))))"
    using orc texts by simp
  have "then_do (send_responses_A e ?c (responses bd) w)
      (sendMessage e ?c (Text (summary_A (length (responses bd))))) =
      Done (w1\<lparr>sendMessage_calls := Suc (sendMessage_calls w1),
        whatsapp_sent := whatsapp_sent w1 @ [(?c, Text (summary_A (length (responses bd))))]\<rparr>)"
    using plan n by (simp add: completes_then_do w1_def sendMessage_ok)
  then show ?thesis
    using bd False plan by (simp add: processCollectedResponses_A_def Let_def)
qed





lemmas string_defs = js_def trim_def truthy_def startsWith_def endsWith_def toLowerCase_def
  isWhiteSpace_def substring1_def substr_2_9_def number_toString_def

section \<open>The flush at the end of the window\<close>

text \<open>
  C3, as amended. In both collecting variants, when no send is rejected and the scratch
  files of the collected attachments are pairwise distinct: with no collected reply the
  flush sends exactly one "no response" notice to the conversation of the record; with N
  collected replies it relays the N entries in the order of receipt, each once, an entry
  being its text when the text is not blank followed by its attachments whose scratch
  file exists (server.js 2.0.0 then adds one summary line). In every case, also when a
  send is rejected, the record is deleted.
\<close>

theorem flush_relays_collected_entries:
  assumes "\<And>n x. \<not> sendMessage_rejects e n x"
    and "map_of (activeMessages w) bridgeId = Some bd"
    and "distinct (map path (concat (map r_attachments (responses bd))))"
  shows
    "whatsapp_sent (processCollectedResponses_P e bridgeId w) =
       whatsapp_sent w @ map (Pair (whatsappChat bd))
         (if responses bd = [] then [Text no_response_P]
          else concat (map (expected_entry_P e (\<lambda>x. False) (files w)) (responses bd))) \<and>
     whatsapp_sent (processCollectedResponses_A e bridgeId w) =
       whatsapp_sent w @ map (Pair (whatsappChat bd))
         (if responses bd = [] then [Text no_response_A]
          else concat (map (expected_entry_A (\<lambda>x. False) (files w)) (responses bd)) @
               [Text (summary_A (length (responses bd)))]) \<and>
     activeMessages (processCollectedResponses_P e bridgeId w) =
       AList.delete bridgeId (activeMessages w) \<and>
     activeMessages (processCollectedResponses_A e bridgeId w) =
       AList.delete bridgeId (activeMessages w)"
proof -
  have orc: "\<And>n x. sendMessage_rejects e n x = (\<lambda>x. False) x"
    using assms(1) by simp
  have texts: "\<And>t. \<not> (\<lambda>x. False) (Text t)"
    by simp
  show ?thesis
    using processCollectedResponses_P_plan[OF orc texts assms(2,3)]
      processCollectedResponses_A_plan[OF orc texts assms(2,3)]
    by (simp add: activeMessages_processCollectedResponses_P
        activeMessages_processCollectedResponses_A)
qed

theorem flush_relays_collected_entries_witness:
  "whatsapp_sent (processCollectedResponses_P env0 (js ''b1'') collected) =
     [(chat_alice, Text (js ''pong'')), (chat_alice, Text (js ''see file'')),
      (chat_alice, MediaFile (js ''/tmp/b1_photo.png'') [104, 105] None)] \<and>
   whatsapp_sent (processCollectedResponses_A env0 (js ''b1'') one_record) =
     [(chat_alice, Text no_response_A)] \<and>
   activeMessages (processCollectedResponses_P env0 (js ''b1'') collected) = []"
proof -
  have o: "\<And>n x. \<not> sendMessage_rejects env0 n x"
    by (simp add: env0_def)
  have c: "map_of (activeMessages collected) (js ''b1'') =
      Some (rec_alice\<lparr>responses := [pong_entry, see_file_entry]\<rparr>)"
    "map_of (activeMessages one_record) (js ''b1'') = Some rec_alice"
    by (simp_all add: collected_def one_record_def store_of_def)
  have d: "distinct (map path (concat (map r_attachments
      (responses (rec_alice\<lparr>responses := [pong_entry, see_file_entry]\<rparr>)))))"
    "distinct (map path (concat (map r_attachments (responses rec_alice))))"
    by (simp_all add: pong_entry_def see_file_entry_def rec_alice_def)
  have x: "expected_entry_P env0 (\<lambda>x. False) (files collected) pong_entry = [Text (js ''pong'')]"
    "expected_entry_P env0 (\<lambda>x. False) (files collected) see_file_entry =
       [Text (js ''see file''), MediaFile (js ''/tmp/b1_photo.png'') [104, 105] None]"
    by (simp_all add: expected_entry_P_def expected_attachment_P_def attachment_content_P_def
        pong_entry_def see_file_entry_def collected_def store_of_def string_defs)
  show ?thesis
    using flush_relays_collected_entries [OF o c(1) d(1)]
      flush_relays_collected_entries [OF o c(2) d(2)] x
    by (simp add: collected_def one_record_def store_of_def rec_alice_def)
qed

text \<open>
  Three runs against the claim as it was stated. A reply without text and without
  attachments is collected as an entry and relays nothing. When the first send is
  rejected the flush ends, so neither of two collected entries is relayed. Two replies
  that each carry only \<open>photo.png\<close> share one scratch file, and the second entry relays
  nothing.
\<close>

theorem flush_relays_collected_entries_counterexample:
  "length (responses (snd (hd (activeMessages
      (handleDiscordMessage_P cfg0 env0 sticker one_record))))) = 1 \<and>
   whatsapp_sent (processCollectedResponses_P env0 (js ''b1'')
      (handleDiscordMessage_P cfg0 env0 sticker one_record)) = [] \<and>
   length (responses (snd (hd (activeMessages
      (handleDiscordMessage_P cfg0 env0 pong_photo
        (handleDiscordMessage_P cfg0 env0 pong one_record)))))) = 2 \<and>
   whatsapp_sent (processCollectedResponses_P env_first_send_rejects (js ''b1'')
      (handleDiscordMessage_P cfg0 env0 pong_photo
        (handleDiscordMessage_P cfg0 env0 pong one_record))) = [] \<and>
   length (responses (snd (hd (activeMessages
      (handleDiscordMessage_P cfg0 env0 photo_only
        (handleDiscordMessage_P cfg0 env0 photo_only one_record)))))) = 2 \<and>
   whatsapp_sent (processCollectedResponses_P env0 (js ''b1'')
      (handleDiscordMessage_P cfg0 env0 photo_only
        (handleDiscordMessage_P cfg0 env0 photo_only one_record))) =
     [(chat_alice, MediaFile (js ''/tmp/b1_photo.png'') [104, 105] None)]"
  by (simp add: handleDiscordMessage_P_def processCollectedResponses_P_def send_response_P_def
      send_attachment_P_def try_attachment_P_def unlinkSync_def
      sendMessage_def console_err_def writeFileSync_def scratch_path_def path_join_def
      Let_def cfg0_def env0_def env_first_send_rejects_def sticker_def pong_def pong_photo_def
      photo_only_def photo_def one_record_def store_of_def rec_alice_def chat_alice_def
      string_defs)

section \<open>Text attachments\<close>

text \<open>
  C7. A reply carrying \<open>notes.txt\<close> is collected and flushed. server.js 2.0.0 relays the
  attachment as a media file with a caption; part\_000, on the same input, relays the
  text of the file as a chat message, and so does the live relay of server.js 2.2.0.
\<close>

theorem txt_attachment_relayed_as_file:
  "endsWith (att_name notes_txt) (js ''.txt'') \<and>
   whatsapp_sent (processCollectedResponses_A env0 (js ''b1'')
      (handleDiscordMessage_A cfg0 env0 pong_notes one_record)) =
     [(chat_alice, MediaFile (js ''/tmp/b1_notes.txt'') [104, 105]
         (Some ([55357, 56526] @ js '' notes.txt (von bob)''))),
      (chat_alice, Text (summary_A 1))] \<and>
   whatsapp_sent (processCollectedResponses_P env0 (js ''b1'')
      (handleDiscordMessage_P cfg0 env0 pong_notes one_record)) =
     [(chat_alice, Text (utf8 env0 [104, 105]))] \<and>
   whatsapp_sent (handleDiscordMessage_B cfg0 env0 pong_notes (store_of [(js ''b1'', live_alice)])) =
     [(chat_alice, Text (robot @ utf8 env0 [104, 105]))]"
  by (simp add: handleDiscordMessage_A_def handleDiscordMessage_P_def
      processCollectedResponses_A_def processCollectedResponses_P_def
      send_response_A_def send_response_P_def send_attachment_A_def send_attachment_P_def
      try_attachment_A_def try_attachment_P_def caption_A_def unlinkSync_def
      handleDiscordMessage_B_def relay_B_def send_attachment_B_def try_attachment_B_def
      live_alice_def
      sendMessage_def console_err_def writeFileSync_def scratch_path_def path_join_def
      Let_def cfg0_def env0_def pong_def pong_notes_def notes_txt_def
      one_record_def store_of_def rec_alice_def string_defs)

section \<open>Scratch files\<close>

text \<open>
  C9. When the send of a collected attachment is rejected, the flush of server.js 2.0.0
  sends the notice and goes on; the scratch file is still there when the flush is over,
  the record is gone and no callback is pending that would remove the file. When the
  send of an inbound message with media to platform B is rejected, the scratch file
  written before the send stays and the callback that removes it is never scheduled.
  In the live relay of server.js 2.2.0 a rejected send leaves the scratch file as well.
\<close>

theorem scratch_file_left_after_failed_send:
  "map fst (files (processCollectedResponses_A env_media_rejects (js ''b1'')
      (handleDiscordMessage_A cfg0 env0 pong_photo one_record))) = [js ''/tmp/b1_photo.png''] \<and>
   activeMessages (processCollectedResponses_A env_media_rejects (js ''b1'')
      (handleDiscordMessage_A cfg0 env0 pong_photo one_record)) = [] \<and>
   timers (processCollectedResponses_A env_media_rejects (js ''b1'')
      (handleDiscordMessage_A cfg0 env0 pong_photo one_record)) = [] \<and>
   map fst (files (world_of (handleWhatsAppMessage_A cfg0 env_send_rejects ping_media (store_of [])))) =
     [js ''/tmp/200000_4fzyo82mv_cat.jpg''] \<and>
   activeMessages (world_of (handleWhatsAppMessage_A cfg0 env_send_rejects ping_media (store_of []))) = [] \<and>
   timers (world_of (handleWhatsAppMessage_A cfg0 env_send_rejects ping_media (store_of []))) = [] \<and>
   map fst (files (handleDiscordMessage_B cfg0 env_media_rejects pong_photo
      (store_of [(js ''b1'', live_alice)]))) = [js ''/tmp/b1_photo.png'']"
  by (simp add: handleDiscordMessage_A_def processCollectedResponses_A_def
      handleDiscordMessage_B_def relay_B_def send_attachment_B_def try_attachment_B_def
      live_alice_def
      send_response_A_def send_attachment_A_def try_attachment_A_def
      handleWhatsAppMessage_A_def forward_or_remove_def forward_def discord_send_def
      bridgeId_of_def digits.simps orElse_def
      sendMessage_def console_err_def writeFileSync_def scratch_path_def path_join_def
      Let_def cfg0_def env0_def env_media_rejects_def env_send_rejects_def
      pong_def pong_photo_def photo_def ping_media_def ping_alice_def
      one_record_def store_of_def rec_alice_def string_defs)

section \<open>The conversation reference of a record\<close>


lemma activeMessages_forward:
  "activeMessages (world_of (forward cfg e m txt pre expiry w)) = activeMessages w"
  by (simp add: forward_def discord_send_def setTimeout_def writeFileSync_def console_err_def
      Let_def split: answer.splits option.splits)




section \<open>A reply reaches the first record inside its window\<close>





section \<open>Failures of single attachments\<close>















end
